theory Spec2Isabelle
  imports
    Complex_Main
    "HOL-Library.Char_ord"
    "HOL-Library.List_Lexorder"
    "HOL-Library.Product_Lexorder"
begin

section \<open>Data frames\<close>

text \<open>
  The class \<^verbatim>\<open>CovidData\<close> of \<^verbatim>\<open>covid_data.py\<close> holds four pandas data frames and offers
  two methods, \<^verbatim>\<open>routesToWeightedEdges\<close> and \<^verbatim>\<open>getData\<close>. A data frame is a list of column
  labels and a list of rows; a cell is missing (\<open>NaN\<close>), a string or a number. Numbers
  (pandas' \<^verbatim>\<open>int64\<close> and \<^verbatim>\<open>float64\<close>) are embedded into the reals: rounding and overflow
  are not part of this model.
\<close>

datatype cell = is_NaN: NaN | is_Str: Str (str_of: string) | is_Num: Num (num_of: real)

datatype error =
    AssertionError string
  | KeyError string
  | IndexError
  | TypeError
  | ValueError

record dataframe =
  columns :: "string list"
  rows :: "cell list list"

text \<open>Every row of a data frame has one cell per column, and the labels are distinct.\<close>

definition wf_df :: "dataframe \<Rightarrow> bool" where
  "wf_df d = (distinct (columns d) \<and> list_all (\<lambda>r. length r = length (columns d)) (rows d))"

definition bindE :: "error + 'a \<Rightarrow> ('a \<Rightarrow> error + 'b) \<Rightarrow> error + 'b" where
  "bindE m f = (case m of Inl e \<Rightarrow> Inl e | Inr x \<Rightarrow> f x)"

fun mapE :: "('a \<Rightarrow> error + 'b) \<Rightarrow> 'a list \<Rightarrow> error + 'b list" where
  "mapE f [] = Inr []"
| "mapE f (x # xs) = bindE (f x) (\<lambda>y. bindE (mapE f xs) (\<lambda>ys. Inr (y # ys)))"

text \<open>\<^verbatim>\<open>df.columns.get_loc(c)\<close>: the position of a label.\<close>

fun get_loc :: "string list \<Rightarrow> string \<Rightarrow> nat option" where
  "get_loc [] c = None"
| "get_loc (x # xs) c = (if x = c then Some 0 else map_option Suc (get_loc xs c))"

text \<open>\<^verbatim>\<open>df.fillna(v)\<close>: a new frame in which every missing cell is \<open>v\<close>.\<close>

definition fillna :: "dataframe \<Rightarrow> cell \<Rightarrow> dataframe" where
  "fillna d v = d\<lparr>rows := map (map (\<lambda>x. if x = NaN then v else x)) (rows d)\<rparr>"

text \<open>\<^verbatim>\<open>df[c] == v\<close> for a string \<open>v\<close>: a boolean mask, or \<^verbatim>\<open>KeyError\<close>.\<close>

definition eq_mask :: "dataframe \<Rightarrow> string \<Rightarrow> string \<Rightarrow> error + bool list" where
  "eq_mask d c v =
     (case get_loc (columns d) c of
        None \<Rightarrow> Inl (KeyError c)
      | Some i \<Rightarrow> Inr (map (\<lambda>r. r ! i = Str v) (rows d)))"

definition and_mask :: "bool list \<Rightarrow> bool list \<Rightarrow> bool list" where
  "and_mask m1 m2 = map (\<lambda>(a, b). a \<and> b) (zip m1 m2)"

text \<open>\<^verbatim>\<open>df.loc[mask]\<close>: the rows whose mask entry is true, in order.\<close>

definition loc :: "dataframe \<Rightarrow> bool list \<Rightarrow> dataframe" where
  "loc d m = d\<lparr>rows := map fst (filter snd (zip (rows d) m))\<rparr>"

text \<open>\<^verbatim>\<open>df[c] = v\<close> for a scalar \<open>v\<close>: overwrite the column, or append it as the last one.\<close>

definition setitem :: "dataframe \<Rightarrow> string \<Rightarrow> cell \<Rightarrow> dataframe" where
  "setitem d c v =
     (case get_loc (columns d) c of
        None \<Rightarrow> \<lparr>columns = columns d @ [c], rows = map (\<lambda>r. r @ [v]) (rows d)\<rparr>
      | Some i \<Rightarrow> \<lparr>columns = columns d, rows = map (\<lambda>r. r[i := v]) (rows d)\<rparr>)"

text \<open>\<^verbatim>\<open>df[c]\<close>: the cells of one column, or \<^verbatim>\<open>KeyError\<close>.\<close>

definition getitem :: "dataframe \<Rightarrow> string \<Rightarrow> error + cell list" where
  "getitem d c =
     (case get_loc (columns d) c of
        None \<Rightarrow> Inl (KeyError c)
      | Some i \<Rightarrow> Inr (map (\<lambda>r. r ! i) (rows d)))"

subsection \<open>Grouping\<close>

datatype aggfun = AggMean | AggSum

text \<open>
  The result of an aggregation before \<^verbatim>\<open>reset_index()\<close>: the group keys are the index,
  one tuple per group, and the aggregated values are the columns.
\<close>

record 'l indexed =
  index_names :: "string list"
  index :: "cell list list"
  labels :: "'l list"
  group_values :: "cell list list"

fun get_locs :: "string list \<Rightarrow> string list \<Rightarrow> error + nat list" where
  "get_locs cs [] = Inr []"
| "get_locs cs (k # ks) =
     (case get_loc cs k of
        None \<Rightarrow> Inl (KeyError k)
      | Some i \<Rightarrow> bindE (get_locs cs ks) (\<lambda>js. Inr (i # js)))"

text \<open>A column to aggregate must exist and must not be one of the grouping columns.\<close>

fun agg_locs :: "string list \<Rightarrow> string list \<Rightarrow> string list \<Rightarrow> error + nat list" where
  "agg_locs cs keys [] = Inr []"
| "agg_locs cs keys (c # rest) =
     (if c \<in> set keys then Inl (KeyError c)
      else case get_loc cs c of
        None \<Rightarrow> Inl (KeyError c)
      | Some i \<Rightarrow> bindE (agg_locs cs keys rest) (\<lambda>js. Inr (i # js)))"

definition key_of :: "nat list \<Rightarrow> cell list \<Rightarrow> cell list" where
  "key_of ks r = map (\<lambda>i. r ! i) ks"

text \<open>
  Groups come out sorted by key (\<^verbatim>\<open>sort=True\<close>), tuples compared position by position;
  within one position numbers come before strings.
\<close>

fun cell_rank :: "cell \<Rightarrow> nat \<times> real \<times> string" where
  "cell_rank (Num x) = (0, x, [])"
| "cell_rank (Str s) = (1, 0, s)"
| "cell_rank NaN = (2, 0, [])"

definition group_keys :: "nat list \<Rightarrow> cell list list \<Rightarrow> cell list list" where
  "group_keys ks rs = sort_key (map cell_rank) (remdups (map (key_of ks) rs))"

text \<open>Rows with a missing cell in a grouping column belong to no group (\<^verbatim>\<open>dropna=True\<close>).\<close>

definition grouped_rows :: "nat list \<Rightarrow> cell list list \<Rightarrow> cell list list" where
  "grouped_rows ks rs = filter (\<lambda>r. NaN \<notin> set (key_of ks r)) rs"

definition members :: "nat list \<Rightarrow> cell list list \<Rightarrow> cell list \<Rightarrow> cell list list" where
  "members ks rs g = filter (\<lambda>r. key_of ks r = g) rs"

text \<open>
  \<^verbatim>\<open>sum\<close> and \<^verbatim>\<open>mean\<close> of the cells of one group in one column. Missing cells are skipped;
  numbers are added; strings are concatenated by \<^verbatim>\<open>sum\<close>; anything else is a
  \<^verbatim>\<open>TypeError\<close>.
\<close>

definition agg_apply :: "aggfun \<Rightarrow> cell list \<Rightarrow> error + cell" where
  "agg_apply f cs =
     (let xs = filter (\<lambda>c. c \<noteq> NaN) cs in
      if list_all is_Num xs then
        (case f of
           AggSum \<Rightarrow> Inr (Num (sum_list (map num_of xs)))
         | AggMean \<Rightarrow>
             Inr (if xs = [] then NaN else Num (sum_list (map num_of xs) / real (length xs))))
      else if f = AggSum \<and> list_all is_Str xs then Inr (Str (concat (map str_of xs)))
      else Inl TypeError)"

text \<open>\<^verbatim>\<open>df.groupby(keys).agg(agg_dict)\<close>, with one function per column.\<close>

definition groupby_agg ::
  "dataframe \<Rightarrow> string list \<Rightarrow> (string \<times> aggfun) list \<Rightarrow> error + (string \<times> aggfun) indexed" where
  "groupby_agg d keys agg_dict =
     bindE (get_locs (columns d) keys) (\<lambda>ks.
     bindE (agg_locs (columns d) keys (map fst agg_dict)) (\<lambda>vs.
       let rs = grouped_rows ks (rows d);
           gs = group_keys ks rs
       in bindE (mapE (\<lambda>g. mapE (\<lambda>(v, f). agg_apply f (map (\<lambda>r. r ! v) (members ks rs g)))
                                  (zip vs (map snd agg_dict))) gs) (\<lambda>vals.
          Inr \<lparr>index_names = keys, index = gs, labels = agg_dict, group_values = vals\<rparr>)))"

text \<open>\<^verbatim>\<open>df.groupby(keys)[c].sum()\<close>: a series named \<open>c\<close> indexed by the group keys.\<close>

definition groupby_sum :: "dataframe \<Rightarrow> string list \<Rightarrow> string \<Rightarrow> error + string indexed" where
  "groupby_sum d keys c =
     bindE (groupby_agg d keys [(c, AggSum)]) (\<lambda>g.
       Inr \<lparr>index_names = index_names g, index = index g, labels = [c], group_values = group_values g\<rparr>)"

text \<open>\<^verbatim>\<open>new_df.columns = new_columns\<close>: the number of labels must fit.\<close>

definition set_columns :: "'l indexed \<Rightarrow> string list \<Rightarrow> error + string indexed" where
  "set_columns g new_columns =
     (if length new_columns = length (labels g)
      then Inr \<lparr>index_names = index_names g, index = index g,
                labels = new_columns, group_values = group_values g\<rparr>
      else Inl ValueError)"

text \<open>
  \<^verbatim>\<open>reset_index()\<close>: the index levels become the first columns; a level whose name is
  already a column cannot be inserted.
\<close>

definition reset_index :: "string indexed \<Rightarrow> error + dataframe" where
  "reset_index g =
     (if set (index_names g) \<inter> set (labels g) \<noteq> {} then Inl ValueError
      else Inr \<lparr>columns = index_names g @ labels g,
                rows = map (\<lambda>(k, v). k @ v) (zip (index g) (group_values g))\<rparr>)"

section \<open>Route counts\<close>

text \<open>The instance: the four frames the constructor stores.\<close>

record CovidData =
  confirmed_df :: dataframe
  deaths_df :: dataframe
  recovered_df :: dataframe
  routes_df :: dataframe

text \<open>
  \<^verbatim>\<open>routesToWeightedEdges(self, bin_region_column, country)\<close>. The method has no branch
  for any other \<^verbatim>\<open>bin_region_column\<close>: it then falls off its end and returns Python's
  \<^verbatim>\<open>None\<close>, which is \<open>Inr None\<close> here.
\<close>

definition routesToWeightedEdges ::
  "CovidData \<Rightarrow> string \<Rightarrow> string option \<Rightarrow> error + dataframe option" where
  "routesToWeightedEdges self bin_region_column country =
     (let new_routes_df = fillna (routes_df self) (Str ''none'') in
      bindE (case country of
               None \<Rightarrow> Inr new_routes_df
             | Some c \<Rightarrow>
                 bindE (eq_mask new_routes_df ''DepartCountry/Region'' c) (\<lambda>m1.
                 bindE (eq_mask new_routes_df ''ArrivalCountry/Region'' c) (\<lambda>m2.
                   Inr (loc new_routes_df (and_mask m1 m2))))) (\<lambda>new_routes_df.
      let new_routes_df = setitem new_routes_df ''NumberOfRoutes'' (Num 1) in
      if bin_region_column = ''county'' then
        bindE (groupby_sum new_routes_df
                 [''DepartCounty'', ''DepartProvince/State'', ''DepartCountry/Region'',
                  ''ArrivalCounty'', ''ArrivalProvince/State'', ''ArrivalCountry/Region'']
                 ''NumberOfRoutes'') (\<lambda>s.
        bindE (reset_index s) (\<lambda>r. Inr (Some r)))
      else if bin_region_column = ''state'' then
        bindE (groupby_sum new_routes_df
                 [''DepartProvince/State'', ''DepartCountry/Region'',
                  ''ArrivalProvince/State'', ''ArrivalCountry/Region'']
                 ''NumberOfRoutes'') (\<lambda>s.
        bindE (reset_index s) (\<lambda>r. Inr (Some r)))
      else if bin_region_column = ''country'' then
        bindE (groupby_sum new_routes_df
                 [''DepartCountry/Region'', ''ArrivalCountry/Region'']
                 ''NumberOfRoutes'') (\<lambda>s.
        bindE (reset_index s) (\<lambda>r. Inr (Some r)))
      else Inr None))"

section \<open>Case tables\<close>

text \<open>Python dictionaries keep insertion order: \<^verbatim>\<open>d[k] = v\<close> and \<^verbatim>\<open>d[k]\<close>.\<close>

fun dict_set :: "('k \<times> 'v) list \<Rightarrow> 'k \<Rightarrow> 'v \<Rightarrow> ('k \<times> 'v) list" where
  "dict_set [] k v = [(k, v)]"
| "dict_set ((k', v') # d) k v =
     (if k' = k then (k, v) # d else (k', v') # dict_set d k v)"

fun dict_get :: "(string \<times> 'v) list \<Rightarrow> string \<Rightarrow> error + 'v" where
  "dict_get [] k = Inl (KeyError k)"
| "dict_get ((k', v') # d) k = (if k' = k then Inr v' else dict_get d k)"

text \<open>
  Lines 128 to 130: every table of \<^verbatim>\<open>data\<close>, in the order of its keys, is restricted to
  the rows of one country.
\<close>

fun filter_country ::
  "(string \<times> dataframe) list \<Rightarrow> string \<Rightarrow> error + (string \<times> dataframe) list" where
  "filter_country [] c = Inr []"
| "filter_country ((data_type, df) # rest) c =
     bindE (eq_mask df ''Country/Region'' c) (\<lambda>m.
     bindE (filter_country rest c) (\<lambda>rest'.
       Inr ((data_type, loc df m) # rest')))"

text \<open>Lines 157 to 159 and 162 to 164: group, aggregate, relabel, reset the index.\<close>

definition aggregate ::
  "dataframe \<Rightarrow> string list \<Rightarrow> (string \<times> aggfun) list \<Rightarrow> string list \<Rightarrow> error + dataframe" where
  "aggregate df keys agg_dict new_columns =
     bindE (groupby_agg df keys agg_dict) (\<lambda>new_df.
     bindE (set_columns new_df new_columns) (\<lambda>new_df.
       reset_index new_df))"

text \<open>
  The loop of lines 152 to 165. The two tests for \<^verbatim>\<open>'state'\<close> and \<^verbatim>\<open>'country'\<close> both read
  the table \<^verbatim>\<open>df\<close> taken at the top of the iteration and exclude each other, so they are
  the branches of one chain here.
\<close>

fun aggregate_all ::
  "string \<Rightarrow> (string \<times> aggfun) list \<Rightarrow> string list \<Rightarrow> (string \<times> dataframe) list
     \<Rightarrow> error + (string \<times> dataframe) list" where
  "aggregate_all bin_region_column agg_dict new_columns [] = Inr []"
| "aggregate_all bin_region_column agg_dict new_columns ((data_type, df) # rest) =
     bindE (if bin_region_column = ''county'' then Inr df
            else if bin_region_column = ''state'' then
              aggregate df [''Province/State'', ''Country/Region''] agg_dict new_columns
            else if bin_region_column = ''country'' then
              aggregate df [''Country/Region''] agg_dict new_columns
            else Inr df) (\<lambda>new_df.
     bindE (aggregate_all bin_region_column agg_dict new_columns rest) (\<lambda>rest'.
       Inr ((data_type, new_df) # rest')))"

text \<open>
  Lines 132 to 149: the columns to aggregate and the labels of the result, from the date
  selector. \<^verbatim>\<open>dates[-1]\<close> on an empty list is an \<^verbatim>\<open>IndexError\<close>.
\<close>

definition select_dates ::
  "string list \<Rightarrow> string option \<Rightarrow> error + (string \<times> aggfun) list \<times> string list" where
  "select_dates dates specific_date =
     (let new_columns = [''Lat'', ''Long''] @ dates;
          agg_dict = dict_set (dict_set [] ''Lat'' AggMean) ''Long'' AggMean
      in case specific_date of
           None \<Rightarrow> Inr (fold (\<lambda>date d. dict_set d date AggSum) dates agg_dict, new_columns)
         | Some sd \<Rightarrow>
             if sd \<noteq> ''latest'' then
               (if sd \<in> set dates
                then Inr (dict_set agg_dict sd AggSum, [''Lat'', ''Long''] @ [sd])
                else Inl (AssertionError (sd @
                  '' is not a valid date. Check the covid .csv files for what a valid dates look like!'')))
             else
               (if dates = [] then Inl IndexError
                else let latest_date = last dates
                     in Inr (dict_set agg_dict latest_date AggSum,
                             [''Lat'', ''Long''] @ [latest_date])))"

text \<open>
  \<^verbatim>\<open>getData(self, bin_region_column, country, specific_date)\<close>: the dictionary of case
  tables and the route counts, or the first exception raised.
\<close>

definition getData ::
  "CovidData \<Rightarrow> string \<Rightarrow> string option \<Rightarrow> string option
     \<Rightarrow> error + (string \<times> dataframe) list \<times> dataframe option" where
  "getData self bin_region_column country specific_date =
     (if \<not> (bin_region_column = ''county'' \<or> bin_region_column = ''state''
             \<or> bin_region_column = ''country'')
      then Inl (AssertionError
        ''Invalid region parsed to bin_region_column! Needs to be county, state or country'')
      else
        let data = [(''confirmed'', fillna (confirmed_df self) (Str ''none'')),
                    (''deaths'', fillna (deaths_df self) (Str ''none''))];
            data = (if bin_region_column = ''country''
                    then dict_set data ''recovered'' (fillna (recovered_df self) (Str ''none''))
                    else data)
        in
        bindE (case country of None \<Rightarrow> Inr data | Some c \<Rightarrow> filter_country data c) (\<lambda>data.
        bindE (dict_get data ''confirmed'') (\<lambda>confirmed.
        bindE (select_dates (drop 5 (columns confirmed)) specific_date) (\<lambda>(agg_dict, new_columns).
        bindE (aggregate_all bin_region_column agg_dict new_columns data) (\<lambda>data.
        bindE (routesToWeightedEdges self bin_region_column country) (\<lambda>routes.
          Inr (data, routes)))))))"

section \<open>The methods over a store of objects\<close>

text \<open>
  The frames of a \<^verbatim>\<open>CovidData\<close> instance are objects, and two statements of the class
  change an object in place: \<^verbatim>\<open>new_routes_df['NumberOfRoutes'] = 1\<close> (line 64) and
  \<^verbatim>\<open>new_df.columns = new_columns\<close> (lines 158 and 163). To see which objects they can
  reach, the two methods are written once more over a store of objects, in which a
  variable holds a reference (a position in the store) and every pandas call that returns
  a new frame allocates one. An object is a frame, the result of \<^verbatim>\<open>groupby(...).agg(...)\<close>
  with its two-level column labels, or a frame or series that still has its group index.
\<close>

datatype obj =
    Frame dataframe
  | Aggregated "(string \<times> aggfun) indexed"
  | Indexed "string indexed"

type_synonym ref = nat

type_synonym store = "obj list"

text \<open>A statement: from a store to a result or an exception, and the store it leaves.\<close>

type_synonym 'a prog = "store \<Rightarrow> (error + 'a) \<times> store"

definition ret :: "'a \<Rightarrow> 'a prog" where
  "ret x = (\<lambda>s. (Inr x, s))"

definition liftE :: "error + 'a \<Rightarrow> 'a prog" where
  "liftE r = (\<lambda>s. (r, s))"

definition bnd :: "'a prog \<Rightarrow> ('a \<Rightarrow> 'b prog) \<Rightarrow> 'b prog" where
  "bnd m f = (\<lambda>s. case m s of (Inl e, s') \<Rightarrow> (Inl e, s') | (Inr x, s') \<Rightarrow> f x s')"

definition alloc :: "obj \<Rightarrow> ref prog" where
  "alloc x = (\<lambda>s. (Inr (length s), s @ [x]))"

text \<open>
  Reading the frame behind a reference. A reference of the methods always points to an
  object of the right kind; the other branches only make the function total.
\<close>

definition get_frame :: "ref \<Rightarrow> dataframe prog" where
  "get_frame r = (\<lambda>s.
     if r < length s then (case s ! r of Frame d \<Rightarrow> (Inr d, s) | _ \<Rightarrow> (Inl TypeError, s))
     else (Inl TypeError, s))"

text \<open>\<^verbatim>\<open>df.copy(deep=True)\<close>, \<^verbatim>\<open>df.fillna(v)\<close>, \<^verbatim>\<open>df[c] == v\<close>, \<^verbatim>\<open>df.loc[mask]\<close>, \<^verbatim>\<open>df.columns\<close>: each reads
  its frame; the first, second and fourth return a new object.\<close>

definition copy_deep :: "ref \<Rightarrow> ref prog" where
  "copy_deep r = bnd (get_frame r) (\<lambda>d. alloc (Frame d))"

definition fillna_obj :: "ref \<Rightarrow> cell \<Rightarrow> ref prog" where
  "fillna_obj r v = bnd (get_frame r) (\<lambda>d. alloc (Frame (fillna d v)))"

definition eq_mask_obj :: "ref \<Rightarrow> string \<Rightarrow> string \<Rightarrow> bool list prog" where
  "eq_mask_obj r c v = bnd (get_frame r) (\<lambda>d. liftE (eq_mask d c v))"

definition loc_obj :: "ref \<Rightarrow> bool list \<Rightarrow> ref prog" where
  "loc_obj r m = bnd (get_frame r) (\<lambda>d. alloc (Frame (loc d m)))"

definition columns_obj :: "ref \<Rightarrow> string list prog" where
  "columns_obj r = bnd (get_frame r) (\<lambda>d. ret (columns d))"

text \<open>\<^verbatim>\<open>df[c] = v\<close> changes the object \<^verbatim>\<open>df\<close> refers to.\<close>

definition setitem_obj :: "ref \<Rightarrow> string \<Rightarrow> cell \<Rightarrow> unit prog" where
  "setitem_obj r c v = (\<lambda>s.
     if r < length s then
       (case s ! r of
          Frame d \<Rightarrow> (Inr (), s[r := Frame (setitem d c v)])
        | _ \<Rightarrow> (Inl TypeError, s))
     else (Inl TypeError, s))"

text \<open>Grouping returns a new object.\<close>

definition groupby_sum_obj :: "ref \<Rightarrow> string list \<Rightarrow> string \<Rightarrow> ref prog" where
  "groupby_sum_obj r keys c =
     bnd (get_frame r) (\<lambda>d. bnd (liftE (groupby_sum d keys c)) (\<lambda>g. alloc (Indexed g)))"

definition groupby_agg_obj :: "ref \<Rightarrow> string list \<Rightarrow> (string \<times> aggfun) list \<Rightarrow> ref prog" where
  "groupby_agg_obj r keys agg_dict =
     bnd (get_frame r) (\<lambda>d. bnd (liftE (groupby_agg d keys agg_dict)) (\<lambda>g. alloc (Aggregated g)))"

text \<open>\<^verbatim>\<open>new_df.columns = new_columns\<close> changes the object \<^verbatim>\<open>new_df\<close> refers to.\<close>

definition set_columns_obj :: "ref \<Rightarrow> string list \<Rightarrow> unit prog" where
  "set_columns_obj r new_columns = (\<lambda>s.
     if r < length s then
       (case s ! r of
          Frame d \<Rightarrow> (Inl TypeError, s)
        | Aggregated g \<Rightarrow>
            (case set_columns g new_columns of
               Inl e \<Rightarrow> (Inl e, s)
             | Inr g' \<Rightarrow> (Inr (), s[r := Indexed g']))
        | Indexed g \<Rightarrow>
            (case set_columns g new_columns of
               Inl e \<Rightarrow> (Inl e, s)
             | Inr g' \<Rightarrow> (Inr (), s[r := Indexed g'])))
     else (Inl TypeError, s))"

text \<open>\<^verbatim>\<open>reset_index()\<close> returns a new frame.\<close>

definition reset_index_obj :: "ref \<Rightarrow> ref prog" where
  "reset_index_obj r = (\<lambda>s.
     if r < length s then
       (case s ! r of
          Indexed g \<Rightarrow> bnd (liftE (reset_index g)) (\<lambda>d. alloc (Frame d)) s
        | _ \<Rightarrow> (Inl TypeError, s))
     else (Inl TypeError, s))"

text \<open>The instance: its four attributes refer to objects of the store. No method assigns to
  an attribute, so a method takes the instance and returns only a result and a store.\<close>

record CovidData_refs =
  confirmed_ref :: ref
  deaths_ref :: ref
  recovered_ref :: ref
  routes_ref :: ref

text \<open>\<^verbatim>\<open>routesToWeightedEdges\<close>, statement by statement (lines 59 to 82).\<close>

definition routesToWeightedEdges_store ::
  "CovidData_refs \<Rightarrow> string \<Rightarrow> string option \<Rightarrow> ref option prog" where
  "routesToWeightedEdges_store self bin_region_column country =
     bnd (copy_deep (routes_ref self)) (\<lambda>copied.
     bnd (fillna_obj copied (Str ''none'')) (\<lambda>new_routes_df.
     bnd (case country of
            None \<Rightarrow> ret new_routes_df
          | Some c \<Rightarrow>
              bnd (eq_mask_obj new_routes_df ''DepartCountry/Region'' c) (\<lambda>m1.
              bnd (eq_mask_obj new_routes_df ''ArrivalCountry/Region'' c) (\<lambda>m2.
                loc_obj new_routes_df (and_mask m1 m2)))) (\<lambda>new_routes_df.
     bnd (setitem_obj new_routes_df ''NumberOfRoutes'' (Num 1)) (\<lambda>_.
     if bin_region_column = ''county'' then
       bnd (groupby_sum_obj new_routes_df
              [''DepartCounty'', ''DepartProvince/State'', ''DepartCountry/Region'',
               ''ArrivalCounty'', ''ArrivalProvince/State'', ''ArrivalCountry/Region'']
              ''NumberOfRoutes'') (\<lambda>s.
       bnd (reset_index_obj s) (\<lambda>r. ret (Some r)))
     else if bin_region_column = ''state'' then
       bnd (groupby_sum_obj new_routes_df
              [''DepartProvince/State'', ''DepartCountry/Region'',
               ''ArrivalProvince/State'', ''ArrivalCountry/Region'']
              ''NumberOfRoutes'') (\<lambda>s.
       bnd (reset_index_obj s) (\<lambda>r. ret (Some r)))
     else if bin_region_column = ''country'' then
       bnd (groupby_sum_obj new_routes_df
              [''DepartCountry/Region'', ''ArrivalCountry/Region'']
              ''NumberOfRoutes'') (\<lambda>s.
       bnd (reset_index_obj s) (\<lambda>r. ret (Some r)))
     else ret None))))"

text \<open>The loop of lines 128 to 130.\<close>

fun filter_country_store :: "(string \<times> ref) list \<Rightarrow> string \<Rightarrow> (string \<times> ref) list prog" where
  "filter_country_store [] c = ret []"
| "filter_country_store ((data_type, df) # rest) c =
     bnd (eq_mask_obj df ''Country/Region'' c) (\<lambda>m.
     bnd (loc_obj df m) (\<lambda>df'.
     bnd (filter_country_store rest c) (\<lambda>rest'.
       ret ((data_type, df') # rest'))))"

text \<open>Lines 157 to 159 and 162 to 164.\<close>

definition aggregate_store ::
  "ref \<Rightarrow> string list \<Rightarrow> (string \<times> aggfun) list \<Rightarrow> string list \<Rightarrow> ref prog" where
  "aggregate_store df keys agg_dict new_columns =
     bnd (groupby_agg_obj df keys agg_dict) (\<lambda>new_df.
     bnd (set_columns_obj new_df new_columns) (\<lambda>_.
       reset_index_obj new_df))"

text \<open>The loop of lines 152 to 165.\<close>

fun aggregate_all_store ::
  "string \<Rightarrow> (string \<times> aggfun) list \<Rightarrow> string list \<Rightarrow> (string \<times> ref) list
     \<Rightarrow> (string \<times> ref) list prog" where
  "aggregate_all_store bin_region_column agg_dict new_columns [] = ret []"
| "aggregate_all_store bin_region_column agg_dict new_columns ((data_type, df) # rest) =
     bnd (if bin_region_column = ''county'' then ret df
          else if bin_region_column = ''state'' then
            aggregate_store df [''Province/State'', ''Country/Region''] agg_dict new_columns
          else if bin_region_column = ''country'' then
            aggregate_store df [''Country/Region''] agg_dict new_columns
          else ret df) (\<lambda>new_df.
     bnd (aggregate_all_store bin_region_column agg_dict new_columns rest) (\<lambda>rest'.
       ret ((data_type, new_df) # rest')))"

text \<open>\<^verbatim>\<open>getData\<close>, statement by statement (lines 118 to 167).\<close>

definition getData_store ::
  "CovidData_refs \<Rightarrow> string \<Rightarrow> string option \<Rightarrow> string option
     \<Rightarrow> ((string \<times> ref) list \<times> ref option) prog" where
  "getData_store self bin_region_column country specific_date =
     (if \<not> (bin_region_column = ''county'' \<or> bin_region_column = ''state''
             \<or> bin_region_column = ''country'')
      then liftE (Inl (AssertionError
        ''Invalid region parsed to bin_region_column! Needs to be county, state or country''))
      else
        bnd (copy_deep (confirmed_ref self)) (\<lambda>c1.
        bnd (fillna_obj c1 (Str ''none'')) (\<lambda>confirmed.
        bnd (copy_deep (deaths_ref self)) (\<lambda>c2.
        bnd (fillna_obj c2 (Str ''none'')) (\<lambda>deaths.
        bnd (if bin_region_column = ''country'' then
               bnd (copy_deep (recovered_ref self)) (\<lambda>c3.
               bnd (fillna_obj c3 (Str ''none'')) (\<lambda>recovered.
                 ret (dict_set [(''confirmed'', confirmed), (''deaths'', deaths)]
                        ''recovered'' recovered)))
             else ret [(''confirmed'', confirmed), (''deaths'', deaths)]) (\<lambda>data.
        bnd (case country of None \<Rightarrow> ret data | Some c \<Rightarrow> filter_country_store data c) (\<lambda>data.
        bnd (liftE (dict_get data ''confirmed'')) (\<lambda>confirmed.
        bnd (columns_obj confirmed) (\<lambda>cols.
        bnd (liftE (select_dates (drop 5 cols) specific_date)) (\<lambda>(agg_dict, new_columns).
        bnd (aggregate_all_store bin_region_column agg_dict new_columns data) (\<lambda>data.
        bnd (routesToWeightedEdges_store self bin_region_column country) (\<lambda>routes.
          ret (data, routes)))))))))))))"

text \<open>A sequence of calls on one instance: each call starts in the store the call before it
  left, whether that call returned or raised.\<close>

datatype call =
    CallRoutes string "string option"
  | CallGetData string "string option" "string option"

fun run_call :: "CovidData_refs \<Rightarrow> call \<Rightarrow> store \<Rightarrow> store" where
  "run_call self (CallRoutes bin_region_column country) s =
     snd (routesToWeightedEdges_store self bin_region_column country s)"
| "run_call self (CallGetData bin_region_column country specific_date) s =
     snd (getData_store self bin_region_column country specific_date s)"

definition run_calls :: "CovidData_refs \<Rightarrow> call list \<Rightarrow> store \<Rightarrow> store" where
  "run_calls self calls s = fold (run_call self) calls s"

section \<open>Reference notions for the claims\<close>

text \<open>
  The rows of a frame in which each of the named columns holds the given country; with no
  country, the frame itself. This is the reference notion of the country filter, against
  which the masks of the methods are compared.
\<close>

definition restrict_country :: "dataframe \<Rightarrow> string list \<Rightarrow> string option \<Rightarrow> dataframe" where
  "restrict_country d cols country =
     (case country of
        None \<Rightarrow> d
      | Some c \<Rightarrow>
          d\<lparr>rows := filter (\<lambda>r. list_all (\<lambda>f. case get_loc (columns d) f of
                                                  None \<Rightarrow> False
                                                | Some i \<Rightarrow> r ! i = Str c) cols) (rows d)\<rparr>)"

text \<open>The grouping columns of the route table at each granularity (lines 69 to 82).\<close>

definition route_keys :: "string \<Rightarrow> string list" where
  "route_keys bin_region_column =
     (if bin_region_column = ''county'' then
        [''DepartCounty'', ''DepartProvince/State'', ''DepartCountry/Region'',
         ''ArrivalCounty'', ''ArrivalProvince/State'', ''ArrivalCountry/Region'']
      else if bin_region_column = ''state'' then
        [''DepartProvince/State'', ''DepartCountry/Region'',
         ''ArrivalProvince/State'', ''ArrivalCountry/Region'']
      else [''DepartCountry/Region'', ''ArrivalCountry/Region''])"

text \<open>The route table after \<^verbatim>\<open>fillna("none")\<close> and the optional country filter.\<close>

definition selected_routes :: "CovidData \<Rightarrow> string option \<Rightarrow> dataframe" where
  "selected_routes self country =
     restrict_country (fillna (routes_df self) (Str ''none''))
       [''DepartCountry/Region'', ''ArrivalCountry/Region''] country"

text \<open>The grouping columns of a case table at state and at country granularity.\<close>

definition case_keys :: "string \<Rightarrow> string list" where
  "case_keys bin_region_column =
     (if bin_region_column = ''state'' then [''Province/State'', ''Country/Region'']
      else [''Country/Region''])"

text \<open>A case table after \<^verbatim>\<open>fillna("none")\<close> and the optional country filter.\<close>

definition selected_cases :: "dataframe \<Rightarrow> string option \<Rightarrow> dataframe" where
  "selected_cases d country =
     restrict_country (fillna d (Str ''none'')) [''Country/Region''] country"

text \<open>The date columns the date selector asks for.\<close>

definition selected_dates :: "string list \<Rightarrow> string option \<Rightarrow> string list" where
  "selected_dates dates specific_date =
     (case specific_date of
        None \<Rightarrow> dates
      | Some sd \<Rightarrow> if sd = ''latest'' then [last dates] else [sd])"

text \<open>
  The stored tables \<^verbatim>\<open>getData\<close> reads, under the names of its dictionary: the recovered
  table only at country granularity.
\<close>

definition source_tables :: "CovidData \<Rightarrow> string \<Rightarrow> (string \<times> dataframe) list" where
  "source_tables self bin_region_column =
     [(''confirmed'', confirmed_df self), (''deaths'', deaths_df self)] @
     (if bin_region_column = ''country'' then [(''recovered'', recovered_df self)] else [])"

text \<open>Lines 120 to 126 of \<^verbatim>\<open>getData\<close> on their own: the dictionary before the country filter.\<close>

definition filled_tables :: "CovidData \<Rightarrow> string \<Rightarrow> (string \<times> dataframe) list" where
  "filled_tables self bin_region_column =
     (let data = [(''confirmed'', fillna (confirmed_df self) (Str ''none'')),
                  (''deaths'', fillna (deaths_df self) (Str ''none''))]
      in if bin_region_column = ''country''
         then dict_set data ''recovered'' (fillna (recovered_df self) (Str ''none''))
         else data)"


text \<open>
  A sufficient condition for \<^verbatim>\<open>groupby(keys).agg(...)\<close> over the columns \<open>aggs\<close> to succeed on a
  frame: the frame is well formed, has the grouping and the aggregated columns, and every
  cell of an aggregated column is a number.
\<close>

definition aggregable :: "dataframe \<Rightarrow> string list \<Rightarrow> string list \<Rightarrow> bool" where
  "aggregable d keys aggs =
     (wf_df d \<and> set (keys @ aggs) \<subseteq> set (columns d)
      \<and> list_all (\<lambda>r. list_all (\<lambda>c. case get_loc (columns d) c of
                                         None \<Rightarrow> False
                                       | Some i \<Rightarrow> is_Num (r ! i)) aggs) (rows d))"

text \<open>
  A sufficient condition for \<^verbatim>\<open>getData\<close> to return: a granularity of the three, a date
  selector the date columns answer, tables that have the column of the country filter
  when a country is given and, at state and country granularity, can be aggregated, labels
  to aggregate that are distinct and are no grouping column, and a well-formed route
  table with the grouping columns of the granularity. The tables are those of
  \<open>source_tables\<close>: nothing is asked of the recovered table below country granularity.
\<close>

definition getData_ready :: "CovidData \<Rightarrow> string \<Rightarrow> string option \<Rightarrow> string option \<Rightarrow> bool" where
  "getData_ready self g country sd =
     (let dates = drop 5 (columns (confirmed_df self));
          aggs = [''Lat'', ''Long''] @ selected_dates dates sd
      in (g = ''county'' \<or> g = ''state'' \<or> g = ''country'')
         \<and> (case sd of
              None \<Rightarrow> True
            | Some d \<Rightarrow> if d = ''latest'' then dates \<noteq> [] else d \<in> set dates)
         \<and> list_all (\<lambda>(n, d).
               (country \<noteq> None \<longrightarrow> ''Country/Region'' \<in> set (columns d))
               \<and> (g \<noteq> ''county'' \<longrightarrow> aggregable d (case_keys g) aggs))
             (source_tables self g)
         \<and> (g \<noteq> ''county'' \<longrightarrow> distinct aggs \<and> set aggs \<inter> set (case_keys g) = {})
         \<and> wf_df (routes_df self)
         \<and> set (route_keys g) \<subseteq> set (columns (routes_df self)))"

subsection \<open>Reading the store\<close>

text \<open>
  A statement respects the first \<open>n\<close> objects of the store when, started with at least \<open>n\<close>
  objects, it leaves these as they are and removes none; \<open>Q\<close> holds of what it returns.
\<close>

definition frame :: "nat \<Rightarrow> 'a prog \<Rightarrow> ('a \<Rightarrow> bool) \<Rightarrow> bool" where
  "frame n m Q =
     (\<forall>s. n \<le> length s \<longrightarrow>
        (case m s of (r, s') \<Rightarrow>
           length s \<le> length s' \<and> take n s' = take n s
           \<and> (case r of Inl e \<Rightarrow> True | Inr x \<Rightarrow> Q x)))"

text \<open>The reference \<open>r\<close> points to the object \<open>x\<close>.\<close>

definition holds :: "ref \<Rightarrow> obj \<Rightarrow> store \<Rightarrow> bool" where
  "holds r x s = (r < length s \<and> s ! r = x)"

abbreviation frame_at :: "store \<Rightarrow> ref \<Rightarrow> dataframe \<Rightarrow> bool" where
  "frame_at s a t \<equiv> holds a (Frame t) s"

text \<open>
  A statement on the store simulates a value \<open>v\<close> of the frame-level model when it only adds
  objects and either raises what \<open>v\<close> raises or returns something related to what \<open>v\<close>
  returns, in the store it leaves.
\<close>

definition sim ::
  "store \<Rightarrow> 'a prog \<Rightarrow> error + 'b \<Rightarrow> (store \<Rightarrow> 'a \<Rightarrow> 'b \<Rightarrow> bool) \<Rightarrow> bool" where
  "sim s m v R =
     (\<exists>objs. case v of
        Inl e \<Rightarrow> m s = (Inl e, s @ objs)
      | Inr y \<Rightarrow> (\<exists>x. m s = (Inr x, s @ objs) \<and> R (s @ objs) x y))"

text \<open>A dictionary of references, a reference or \<^verbatim>\<open>None\<close>, and the result of \<^verbatim>\<open>getData\<close>,
  read through the store.\<close>

definition dict_at :: "store \<Rightarrow> (string \<times> ref) list \<Rightarrow> (string \<times> dataframe) list \<Rightarrow> bool" where
  "dict_at s refs tables =
     list_all2 (\<lambda>(n, a) (n', t). n = n' \<and> holds a (Frame t) s) refs tables"

definition opt_at :: "store \<Rightarrow> ref option \<Rightarrow> dataframe option \<Rightarrow> bool" where
  "opt_at s x y = rel_option (\<lambda>a t. holds a (Frame t) s) x y"

definition result_at ::
  "store \<Rightarrow> (string \<times> ref) list \<times> ref option
     \<Rightarrow> (string \<times> dataframe) list \<times> dataframe option \<Rightarrow> bool" where
  "result_at s x y = (dict_at s (fst x) (fst y) \<and> opt_at s (snd x) (snd y))"

text \<open>The objects the four attributes of the instance refer to.\<close>

definition stored_tables :: "CovidData_refs \<Rightarrow> store \<Rightarrow> obj list" where
  "stored_tables self s =
     map (\<lambda>r. s ! r) [confirmed_ref self, deaths_ref self, recovered_ref self, routes_ref self]"

section \<open>A small instance\<close>

text \<open>
  Three routes, two of them inside one country, and case tables with two dates; the
  recovered table has no county column. Missing location fields are \<open>NaN\<close>, as read from
  the files.
\<close>

definition example_routes :: dataframe where
  "example_routes =
     \<lparr>columns = [''DepartCounty'', ''DepartProvince/State'', ''DepartCountry/Region'',
                 ''ArrivalCounty'', ''ArrivalProvince/State'', ''ArrivalCountry/Region''],
      rows = [[Str ''A'', NaN, Str ''US'', Str ''B'', NaN, Str ''US''],
              [Str ''A'', NaN, Str ''US'', Str ''B'', NaN, Str ''US''],
              [Str ''A'', NaN, Str ''CA'', Str ''C'', NaN, Str ''CA'']]\<rparr>"

definition example_cases :: dataframe where
  "example_cases =
     \<lparr>columns = [''County'', ''Province/State'', ''Country/Region'', ''Lat'', ''Long'',
                 ''1/22/20'', ''1/23/20''],
      rows = [[NaN, Str ''X'', Str ''Z'', Num 1, Num 2, Num 1, Num 5],
              [NaN, Str ''X'', Str ''Z'', Num 2, Num 2, Num 2, Num 6],
              [NaN, Str ''Y'', Str ''Z'', Num 3, Num 5, Num 3, Num 7]]\<rparr>"

definition example_recovered :: dataframe where
  "example_recovered =
     \<lparr>columns = [''Province/State'', ''Country/Region'', ''Lat'', ''Long'',
                 ''1/22/20'', ''1/23/20''],
      rows = [[Str ''X'', Str ''Z'', Num 1, Num 2, Num 1, Num 5],
              [NaN, Str ''W'', Num 3, Num 5, Num 3, Num 7]]\<rparr>"

definition example_self :: CovidData where
  "example_self =
     \<lparr>confirmed_df = example_cases, deaths_df = example_cases,
      recovered_df = example_recovered, routes_df = example_routes\<rparr>"

text \<open>What the methods return on this instance, as computed below.\<close>

definition example_filled_cases :: dataframe where
  "example_filled_cases =
     \<lparr>columns = [''County'', ''Province/State'', ''Country/Region'', ''Lat'',
                 ''Long'', ''1/22/20'', ''1/23/20''],
      rows = [[Str ''none'', Str ''X'', Str ''Z'', Num 1, Num 2, Num 1, Num 5],
              [Str ''none'', Str ''X'', Str ''Z'', Num 2, Num 2, Num 2, Num 6],
              [Str ''none'', Str ''Y'', Str ''Z'', Num 3, Num 5, Num 3, Num 7]]\<rparr>"

definition example_county_tables :: "(string \<times> dataframe) list" where
  "example_county_tables =
     [(''confirmed'', example_filled_cases), (''deaths'', example_filled_cases)]"

definition example_county_routes :: dataframe where
  "example_county_routes =
     \<lparr>columns = [''DepartCounty'', ''DepartProvince/State'', ''DepartCountry/Region'',
                 ''ArrivalCounty'', ''ArrivalProvince/State'',
                 ''ArrivalCountry/Region'', ''NumberOfRoutes''],
      rows = [[Str ''A'', Str ''none'', Str ''CA'', Str ''C'', Str ''none'', Str ''CA'', Num 1],
              [Str ''A'', Str ''none'', Str ''US'', Str ''B'', Str ''none'', Str ''US'', Num 2]]\<rparr>"

definition example_state_cases :: dataframe where
  "example_state_cases =
     \<lparr>columns = [''Province/State'', ''Country/Region'', ''Lat'', ''Long'',
                 ''1/22/20'', ''1/23/20''],
      rows = [[Str ''X'', Str ''Z'', Num (3 / 2), Num 2, Num 3, Num 11],
              [Str ''Y'', Str ''Z'', Num 3, Num 5, Num 3, Num 7]]\<rparr>"

definition example_state_tables :: "(string \<times> dataframe) list" where
  "example_state_tables =
     [(''confirmed'', example_state_cases), (''deaths'', example_state_cases)]"

definition example_state_routes :: dataframe where
  "example_state_routes =
     \<lparr>columns = [''DepartProvince/State'', ''DepartCountry/Region'',
                 ''ArrivalProvince/State'', ''ArrivalCountry/Region'',
                 ''NumberOfRoutes''],
      rows = [[Str ''none'', Str ''CA'', Str ''none'', Str ''CA'', Num 1],
              [Str ''none'', Str ''US'', Str ''none'', Str ''US'', Num 2]]\<rparr>"

definition example_latest_tables :: "(string \<times> dataframe) list" where
  "example_latest_tables =
     [(''confirmed'',
       \<lparr>columns = [''Country/Region'', ''Lat'', ''Long'', ''1/23/20''],
        rows = [[Str ''Z'', Num 2, Num 3, Num 18]]\<rparr>),
      (''deaths'',
       \<lparr>columns = [''Country/Region'', ''Lat'', ''Long'', ''1/23/20''],
        rows = [[Str ''Z'', Num 2, Num 3, Num 18]]\<rparr>),
      (''recovered'',
       \<lparr>columns = [''Country/Region'', ''Lat'', ''Long'', ''1/23/20''],
        rows = [[Str ''W'', Num 3, Num 5, Num 7],
                [Str ''Z'', Num 1, Num 2, Num 5]]\<rparr>)]"

definition example_country_routes :: dataframe where
  "example_country_routes =
     \<lparr>columns = [''DepartCountry/Region'', ''ArrivalCountry/Region'',
                 ''NumberOfRoutes''],
      rows = [[Str ''CA'', Str ''CA'', Num 1],
              [Str ''US'', Str ''US'', Num 2]]\<rparr>"

text \<open>
  A route table in which two routes leave the country \<^verbatim>\<open>US\<close> or arrive in it without doing
  both, next to two routes inside it and one outside.
\<close>

definition example_mixed_routes :: dataframe where
  "example_mixed_routes =
     \<lparr>columns = [''DepartCounty'', ''DepartProvince/State'', ''DepartCountry/Region'',
                 ''ArrivalCounty'', ''ArrivalProvince/State'', ''ArrivalCountry/Region''],
      rows = [[Str ''A'', NaN, Str ''US'', Str ''B'', NaN, Str ''US''],
              [Str ''A'', NaN, Str ''US'', Str ''C'', NaN, Str ''CA''],
              [Str ''D'', NaN, Str ''CA'', Str ''B'', NaN, Str ''US''],
              [Str ''E'', NaN, Str ''US'', Str ''B'', NaN, Str ''US''],
              [Str ''D'', NaN, Str ''CA'', Str ''C'', NaN, Str ''CA'']]\<rparr>"

definition example_mixed_self :: CovidData where
  "example_mixed_self =
     \<lparr>confirmed_df = example_cases, deaths_df = example_cases,
      recovered_df = example_recovered, routes_df = example_mixed_routes\<rparr>"

text \<open>
  The same instance over a store, and three calls on it, the last of which raises.
\<close>

definition example_refs :: CovidData_refs where
  "example_refs = \<lparr>confirmed_ref = 0, deaths_ref = 1, recovered_ref = 2, routes_ref = 3\<rparr>"

definition example_store :: store where
  "example_store =
     [Frame example_cases, Frame example_cases, Frame example_recovered, Frame example_routes]"

definition example_calls :: "call list" where
  "example_calls =
     [CallGetData ''state'' None None, CallRoutes ''country'' (Some ''US''),
      CallGetData ''county'' None (Some ''2020-13-40'')]"

section \<open>Properties of the frame operations\<close>

lemma bindE_Inl [simp]: "bindE (Inl e) f = Inl e"
  by (simp add: bindE_def)

lemma bindE_Inr [simp]: "bindE (Inr x) f = f x"
  by (simp add: bindE_def)

lemma bindE_eq_Inr: "bindE m f = Inr y \<longleftrightarrow> (\<exists>x. m = Inr x \<and> f x = Inr y)"
  by (cases m) simp_all

lemma mapE_Inr: "mapE f xs = Inr ys \<Longrightarrow> list_all2 (\<lambda>x y. f x = Inr y) xs ys"
proof (induction xs arbitrary: ys)
  case Nil
  then show ?case by simp
next
  case (Cons x xs)
  from Cons.prems obtain y ys' where "f x = Inr y" "mapE f xs = Inr ys'" "ys = y # ys'"
    by (auto simp: bindE_eq_Inr)
  with Cons.IH show ?case by simp
qed

lemma get_loc_Some: "get_loc cs c = Some i \<Longrightarrow> i < length cs \<and> cs ! i = c"
  by (induction cs arbitrary: i) (auto split: if_splits)

lemma get_loc_None: "get_loc cs c = None \<longleftrightarrow> c \<notin> set cs"
  by (induction cs) auto

lemma get_loc_append_new: "c \<notin> set cs \<Longrightarrow> get_loc (cs @ [c]) c = Some (length cs)"
  by (induction cs) auto


lemma length_key_of [simp]: "length (key_of ks r) = length ks"
  by (simp add: key_of_def)

lemma length_group_keys: "length (group_keys ks rs) \<le> length rs"
  using length_remdups_leq [of "map (key_of ks) rs"] by (simp add: group_keys_def)

lemma set_group_keys [simp]: "set (group_keys ks rs) = key_of ks ` set rs"
  by (simp add: group_keys_def)

lemma distinct_group_keys [simp]: "distinct (group_keys ks rs)"
  by (simp add: group_keys_def)

text \<open>The groups partition the rows.\<close>

lemma sum_length_filter_distinct:
  "distinct gs \<Longrightarrow>
     (\<Sum>g\<leftarrow>gs. length (filter (\<lambda>r. f r = g) rs)) = length (filter (\<lambda>r. f r \<in> set gs) rs)"
proof (induction gs)
  case Nil
  then show ?case by simp
next
  case (Cons g gs)
  have "length (filter (\<lambda>r. f r \<in> set (g # gs)) rs) =
        length (filter (\<lambda>r. f r = g) rs) + length (filter (\<lambda>r. f r \<in> set gs) rs)"
    using Cons.prems by (induction rs) auto
  with Cons show ?case by simp
qed

lemma sum_members: "(\<Sum>g\<leftarrow>group_keys ks rs. length (members ks rs g)) = length rs"
proof -
  have "(\<Sum>g\<leftarrow>group_keys ks rs. length (members ks rs g)) =
        length (filter (\<lambda>r. key_of ks r \<in> set (group_keys ks rs)) rs)"
    unfolding members_def by (rule sum_length_filter_distinct) simp
  also have "\<dots> = length rs" by simp
  finally show ?thesis .
qed

lemma get_locs_total:
  "set keys \<subseteq> set cs \<Longrightarrow> \<exists>ks. get_locs cs keys = Inr ks"
proof (induction keys)
  case Nil
  then show ?case by simp
next
  case (Cons k keys)
  then obtain ks where "get_locs cs keys = Inr ks" by auto
  moreover from Cons.prems obtain i where "get_loc cs k = Some i"
    using get_loc_None [of cs k] by (cases "get_loc cs k") auto
  ultimately show ?case by simp
qed

lemma get_locs_bounds:
  "get_locs cs keys = Inr ks \<Longrightarrow> length ks = length keys \<and> (\<forall>k\<in>set ks. k < length cs)"
proof (induction keys arbitrary: ks)
  case Nil
  then show ?case by simp
next
  case (Cons k keys)
  then show ?case
    by (auto simp: bindE_eq_Inr split: option.splits dest: get_loc_Some)
qed

lemma mapE_map: "(\<And>x. x \<in> set xs \<Longrightarrow> f x = Inr (g x)) \<Longrightarrow> mapE f xs = Inr (map g xs)"
  by (induction xs) simp_all

lemma agg_sum_ones:
  "(\<And>x. x \<in> set cs \<Longrightarrow> x = Num 1) \<Longrightarrow> agg_apply AggSum cs = Inr (Num (real (length cs)))"
proof -
  assume h: "\<And>x. x \<in> set cs \<Longrightarrow> x = Num 1"
  then have cs: "cs = replicate (length cs) (Num 1)"
    by (simp add: replicate_length_same)
  have "agg_apply AggSum (replicate n (Num 1)) = Inr (Num (real n))" for n
    by (simp add: agg_apply_def list_all_iff sum_list_replicate)
  with cs show ?thesis by metis
qed

lemma agg_sum_nums:
  "agg_apply AggSum (map Num xs) = Inr (Num (sum_list xs))"
  by (simp add: agg_apply_def list_all_iff comp_def)

lemma grouped_rows_no_NaN:
  assumes "\<And>r. r \<in> set rs \<Longrightarrow> NaN \<notin> set r" and "\<And>r k. r \<in> set rs \<Longrightarrow> k \<in> set ks \<Longrightarrow> k < length r"
  shows "grouped_rows ks rs = rs"
proof -
  have "NaN \<notin> set (key_of ks r)" if r: "r \<in> set rs" for r
  proof
    assume "NaN \<in> set (key_of ks r)"
    then obtain k where "k \<in> set ks" "r ! k = NaN" by (auto simp: key_of_def)
    with assms(2) [OF r] have "NaN \<in> set r" by (metis nth_mem)
    with assms(1) [OF r] show False by simp
  qed
  then show ?thesis by (simp add: grouped_rows_def)
qed

lemma set_members: "set (members ks rs g) \<subseteq> set rs"
  by (auto simp: members_def)

text \<open>Counting by groups: the counts add up to the number of rows.\<close>

lemma count_groups:
  assumes wf: "wf_df d"
    and keys: "set keys \<subseteq> set (columns d)"
    and c: "get_loc (columns d) c = Some p" "c \<notin> set keys"
    and ones: "\<And>r. r \<in> set (rows d) \<Longrightarrow> r ! p = Num 1"
    and filled: "\<And>r. r \<in> set (rows d) \<Longrightarrow> NaN \<notin> set r"
  shows "\<exists>s t. groupby_sum d keys c = Inr s \<and> reset_index s = Inr t
           \<and> columns t = keys @ [c]
           \<and> length (rows t) \<le> length (rows d)
           \<and> bindE (getitem t c) (agg_apply AggSum) = Inr (Num (real (length (rows d))))"
proof -
  from get_locs_total [OF keys] obtain ks where ks: "get_locs (columns d) keys = Inr ks" by blast
  from get_locs_bounds [OF ks] have lks: "length ks = length keys"
    and bks: "\<And>k. k \<in> set ks \<Longrightarrow> k < length (columns d)" by auto
  have len: "\<And>r. r \<in> set (rows d) \<Longrightarrow> length r = length (columns d)"
    using wf by (simp add: wf_df_def list_all_iff)
  have gr: "grouped_rows ks (rows d) = rows d"
    by (rule grouped_rows_no_NaN) (auto simp: filled len bks)
  define gs where "gs = group_keys ks (rows d)"
  define cnt where "cnt = (\<lambda>g. real (length (members ks (rows d) g)))"
  have agg: "agg_apply AggSum (map (\<lambda>r. r ! p) (members ks (rows d) g)) = Inr (Num (cnt g))" for g
    using agg_sum_ones [of "map (\<lambda>r. r ! p) (members ks (rows d) g)"] set_members [of ks "rows d" g] ones
    by (auto simp: cnt_def)
  have vals: "mapE (\<lambda>g. mapE (\<lambda>(v, f). agg_apply f (map (\<lambda>r. r ! v) (members ks (rows d) g)))
                 (zip [p] (map snd [(c, AggSum)]))) gs = Inr (map (\<lambda>g. [Num (cnt g)]) gs)"
    by (rule mapE_map) (simp add: agg)
  define s :: "string indexed" where
    "s = \<lparr>index_names = keys, index = gs, labels = [c], group_values = map (\<lambda>g. [Num (cnt g)]) gs\<rparr>"
  have s: "groupby_sum d keys c = Inr s"
    using ks c vals by (simp add: groupby_sum_def groupby_agg_def gr gs_def [symmetric] s_def)
  define t where "t = \<lparr>columns = keys @ [c], rows = map (\<lambda>g. g @ [Num (cnt g)]) gs\<rparr>"
  have "map (\<lambda>(k, v). k @ v) (zip gs (map (\<lambda>g. [Num (cnt g)]) gs)) = map (\<lambda>g. g @ [Num (cnt g)]) gs"
    by (induction gs) simp_all
  then have t: "reset_index s = Inr t"
    using c by (simp add: reset_index_def s_def t_def)
  have lg: "\<And>g. g \<in> set gs \<Longrightarrow> length g = length keys"
    by (auto simp: gs_def lks)
  have "getitem t c = Inr (map (\<lambda>g. Num (cnt g)) gs)"
    using c(2) lg by (simp add: getitem_def t_def get_loc_append_new nth_append)
  moreover have "sum_list (map cnt gs) = real (length (rows d))"
  proof -
    have "sum_list (map cnt gs) = real (\<Sum>g\<leftarrow>gs. length (members ks (rows d) g))"
      by (induction gs) (simp_all add: cnt_def)
    then show ?thesis by (simp add: gs_def sum_members)
  qed
  ultimately have "bindE (getitem t c) (agg_apply AggSum) = Inr (Num (real (length (rows d))))"
    using agg_sum_nums [of "map cnt gs"] by (simp add: comp_def)
  moreover have "length (rows t) \<le> length (rows d)"
    using length_group_keys [of ks "rows d"] by (simp add: t_def gs_def)
  ultimately show ?thesis using s t by (auto simp: t_def)
qed

lemma wf_fillna [simp]: "wf_df (fillna d v) = wf_df d"
  by (simp add: wf_df_def fillna_def list_all_iff)

lemma columns_fillna [simp]: "columns (fillna d v) = columns d"
  by (simp add: fillna_def)

lemma length_rows_fillna [simp]: "length (rows (fillna d v)) = length (rows d)"
  by (simp add: fillna_def)

lemma fillna_no_NaN: "v \<noteq> NaN \<Longrightarrow> r \<in> set (rows (fillna d v)) \<Longrightarrow> NaN \<notin> set r"
  by (auto simp: fillna_def)

lemma filter_by_mask: "map fst (filter snd (zip rs (map P rs))) = filter P rs"
  by (induction rs) simp_all

lemma and_mask_map: "and_mask (map P rs) (map Q rs) = map (\<lambda>r. P r \<and> Q r) rs"
  by (induction rs) (simp_all add: and_mask_def)

lemma loc_eq_mask:
  "eq_mask d a c = Inr m \<Longrightarrow> loc d m = restrict_country d [a] (Some c)"
  by (auto simp: eq_mask_def loc_def restrict_country_def filter_by_mask split: option.splits)

lemma loc_eq_mask2:
  "eq_mask d a c = Inr m1 \<Longrightarrow> eq_mask d b c = Inr m2 \<Longrightarrow>
     loc d (and_mask m1 m2) = restrict_country d [a, b] (Some c)"
  by (auto simp: eq_mask_def loc_def restrict_country_def filter_by_mask and_mask_map
           split: option.splits)

lemma eq_mask_total: "c \<in> set (columns d) \<Longrightarrow> \<exists>m. eq_mask d c v = Inr m"
  using get_loc_None [of "columns d" c] by (cases "get_loc (columns d) c") (auto simp: eq_mask_def)

lemma columns_restrict [simp]: "columns (restrict_country d fs country) = columns d"
  by (simp add: restrict_country_def split: option.splits)

lemma set_rows_restrict: "set (rows (restrict_country d fs country)) \<subseteq> set (rows d)"
  by (auto simp: restrict_country_def split: option.splits)

lemma wf_restrict: "wf_df d \<Longrightarrow> wf_df (restrict_country d fs country)"
  using set_rows_restrict [of d fs country] by (auto simp: wf_df_def list_all_iff)

lemma setitem_props:
  assumes "wf_df d"
  shows "wf_df (setitem d c v)"
    and "set (columns d) \<subseteq> set (columns (setitem d c v))"
    and "length (rows (setitem d c v)) = length (rows d)"
    and "\<exists>p. get_loc (columns (setitem d c v)) c = Some p
              \<and> (\<forall>r\<in>set (rows (setitem d c v)). r ! p = v)"
    and "(\<forall>r\<in>set (rows d). NaN \<notin> set r) \<Longrightarrow> v \<noteq> NaN \<Longrightarrow>
            \<forall>r\<in>set (rows (setitem d c v)). NaN \<notin> set r"
proof -
  have len: "\<And>r. r \<in> set (rows d) \<Longrightarrow> length r = length (columns d)"
    and dist: "distinct (columns d)"
    using assms by (simp_all add: wf_df_def list_all_iff)
  show "wf_df (setitem d c v)"
  proof (cases "get_loc (columns d) c")
    case None
    then have "c \<notin> set (columns d)" by (simp add: get_loc_None)
    with None dist len show ?thesis by (simp add: setitem_def wf_df_def list_all_iff)
  next
    case (Some i)
    with dist len show ?thesis by (simp add: setitem_def wf_df_def list_all_iff)
  qed
  show "set (columns d) \<subseteq> set (columns (setitem d c v))"
    by (auto simp: setitem_def split: option.splits)
  show "length (rows (setitem d c v)) = length (rows d)"
    by (simp add: setitem_def split: option.splits)
  show "\<exists>p. get_loc (columns (setitem d c v)) c = Some p
              \<and> (\<forall>r\<in>set (rows (setitem d c v)). r ! p = v)"
  proof (cases "get_loc (columns d) c")
    case None
    then have "c \<notin> set (columns d)" by (simp add: get_loc_None)
    with None len show ?thesis
      by (auto simp: setitem_def get_loc_append_new nth_append)
  next
    case (Some i)
    with get_loc_Some [OF Some] len show ?thesis
      by (auto simp: setitem_def)
  qed
  show "\<forall>r\<in>set (rows (setitem d c v)). NaN \<notin> set r"
    if "\<forall>r\<in>set (rows d). NaN \<notin> set r" "v \<noteq> NaN"
    using that by (auto simp: setitem_def split: option.splits dest!: set_update_subset_insert [THEN subsetD])
qed

lemma routes_filter_step:
  assumes "set [''DepartCountry/Region'', ''ArrivalCountry/Region''] \<subseteq> set (columns (routes_df self))"
  shows "(case country of
            None \<Rightarrow> Inr (fillna (routes_df self) (Str ''none''))
          | Some c \<Rightarrow>
              bindE (eq_mask (fillna (routes_df self) (Str ''none'')) ''DepartCountry/Region'' c) (\<lambda>m1.
              bindE (eq_mask (fillna (routes_df self) (Str ''none'')) ''ArrivalCountry/Region'' c) (\<lambda>m2.
                Inr (loc (fillna (routes_df self) (Str ''none'')) (and_mask m1 m2)))))
         = Inr (selected_routes self country)"
proof (cases country)
  case None
  then show ?thesis by (simp add: selected_routes_def restrict_country_def)
next
  case (Some c)
  let ?d = "fillna (routes_df self) (Str ''none'')"
  from assms obtain m1 m2 where m: "eq_mask ?d ''DepartCountry/Region'' c = Inr m1"
      "eq_mask ?d ''ArrivalCountry/Region'' c = Inr m2"
    using eq_mask_total [of "''DepartCountry/Region''" ?d c]
      eq_mask_total [of "''ArrivalCountry/Region''" ?d c]
    by auto
  with Some loc_eq_mask2 [OF m] show ?thesis by (simp add: selected_routes_def)
qed

lemma routes_result:
  assumes wf: "wf_df (routes_df self)"
    and cols: "set (route_keys bin_region_column) \<subseteq> set (columns (routes_df self))"
    and g: "bin_region_column = ''county'' \<or> bin_region_column = ''state''
            \<or> bin_region_column = ''country''"
  shows "\<exists>t. routesToWeightedEdges self bin_region_column country = Inr (Some t)
           \<and> columns t = route_keys bin_region_column @ [''NumberOfRoutes'']
           \<and> length (rows t) \<le> length (rows (selected_routes self country))
           \<and> bindE (getitem t ''NumberOfRoutes'') (agg_apply AggSum)
               = Inr (Num (real (length (rows (selected_routes self country)))))"
proof -
  let ?sel = "selected_routes self country"
  let ?new = "setitem ?sel ''NumberOfRoutes'' (Num 1)"
  have wfs: "wf_df ?sel"
    using wf by (simp add: selected_routes_def wf_restrict)
  have nn: "\<forall>r\<in>set (rows ?sel). NaN \<notin> set r"
    using set_rows_restrict fillna_no_NaN [of "Str ''none''" _ "routes_df self"]
    unfolding selected_routes_def by blast
  from setitem_props [OF wfs, where c = "''NumberOfRoutes''" and v = "Num 1"]
  obtain p where new: "wf_df ?new" "set (columns ?sel) \<subseteq> set (columns ?new)"
      "length (rows ?new) = length (rows ?sel)"
      "get_loc (columns ?new) ''NumberOfRoutes'' = Some p"
      "\<And>r. r \<in> set (rows ?new) \<Longrightarrow> r ! p = Num 1"
      "\<And>r. r \<in> set (rows ?new) \<Longrightarrow> NaN \<notin> set r"
    using nn by auto
  have keys: "set (route_keys bin_region_column) \<subseteq> set (columns ?new)"
    using cols new(2) by (auto simp: selected_routes_def)
  have cc: "set [''DepartCountry/Region'', ''ArrivalCountry/Region''] \<subseteq> set (columns (routes_df self))"
    using cols by (auto simp: route_keys_def split: if_splits)
  have notkey: "''NumberOfRoutes'' \<notin> set (route_keys bin_region_column)"
    by (simp add: route_keys_def)
  from count_groups [OF new(1) keys new(4) notkey new(5) new(6)]
  obtain s t where st: "groupby_sum ?new (route_keys bin_region_column) ''NumberOfRoutes'' = Inr s"
      "reset_index s = Inr t"
      "columns t = route_keys bin_region_column @ [''NumberOfRoutes'']"
      "length (rows t) \<le> length (rows ?new)"
      "bindE (getitem t ''NumberOfRoutes'') (agg_apply AggSum) = Inr (Num (real (length (rows ?new))))"
    by blast
  have "routesToWeightedEdges self bin_region_column country = Inr (Some t)"
    unfolding routesToWeightedEdges_def Let_def routes_filter_step [OF cc]
    using g st(1,2) by (auto simp: route_keys_def)
  with st new(3) show ?thesis by simp
qed

lemma fillna_idem: "v \<noteq> NaN \<Longrightarrow> set rs \<subseteq> set (rows (fillna d v)) \<Longrightarrow>
   fillna \<lparr>columns = cs, rows = rs\<rparr> v = \<lparr>columns = cs, rows = rs\<rparr>"
proof -
  assume v: "v \<noteq> NaN" and sub: "set rs \<subseteq> set (rows (fillna d v))"
  have "map (\<lambda>x. if x = NaN then v else x) r = r" if "r \<in> set rs" for r
    using fillna_no_NaN [OF v, of r d] that sub by (intro map_idI) auto
  then have "map (map (\<lambda>x. if x = NaN then v else x)) rs = rs"
    by (induction rs) simp_all
  then show ?thesis by (simp add: fillna_def)
qed

lemma example_routes_wf: "wf_df example_routes"
  by (simp add: wf_df_def example_routes_def)

lemma fillna_without_missing:
  assumes "list_all (\<lambda>r. NaN \<notin> set r) (rows d)"
  shows "fillna d v = d"
proof -
  have inner: "map (\<lambda>x. if x = NaN then v else x) r = r" if "r \<in> set (rows d)" for r
    using that assms by (intro map_idI) (auto simp: list_all_iff)
  have "map (map (\<lambda>x. if x = NaN then v else x)) (rows d) = rows d"
    by (rule map_idI) (rule inner)
  then show ?thesis by (simp add: fillna_def)
qed

lemma filter_country_Inr:
  "filter_country data c = Inr data' \<Longrightarrow>
     data' = map (\<lambda>(n, d). (n, restrict_country d [''Country/Region''] (Some c))) data"
proof (induction data arbitrary: data')
  case Nil
  then show ?case by simp
next
  case (Cons a data)
  obtain n d where a: "a = (n, d)" by (cases a)
  from Cons.prems obtain m rest where m: "eq_mask d ''Country/Region'' c = Inr m"
    and rest: "filter_country data c = Inr rest" and d': "data' = (n, loc d m) # rest"
    unfolding a filter_country.simps by (auto simp: bindE_eq_Inr)
  show ?case using Cons.IH [OF rest] loc_eq_mask [OF m] d' a by simp
qed


lemma groupby_agg_Inr:
  assumes "groupby_agg d keys ad = Inr g"
  shows "index_names g = keys" and "labels g = ad"
    and "length (index g) \<le> length (rows d)"
    and "length (group_values g) = length (index g)"
proof -
  from assms obtain ks vs vals where ks: "get_locs (columns d) keys = Inr ks"
    and "agg_locs (columns d) keys (map fst ad) = Inr vs"
    and vals: "mapE (\<lambda>g. mapE (\<lambda>(v, f). agg_apply f (map (\<lambda>r. r ! v)
                      (members ks (grouped_rows ks (rows d)) g))) (zip vs (map snd ad)))
                 (group_keys ks (grouped_rows ks (rows d))) = Inr vals"
    and g: "g = \<lparr>index_names = keys, index = group_keys ks (grouped_rows ks (rows d)),
                 labels = ad, group_values = vals\<rparr>"
    unfolding groupby_agg_def Let_def by (auto simp: bindE_eq_Inr)
  show "index_names g = keys" "labels g = ad" by (simp_all add: g)
  have "length (grouped_rows ks (rows d)) \<le> length (rows d)"
    by (simp add: grouped_rows_def)
  with length_group_keys [of ks "grouped_rows ks (rows d)"]
  show "length (index g) \<le> length (rows d)" by (simp add: g)
  from mapE_Inr [OF vals] show "length (group_values g) = length (index g)"
    by (simp add: g list_all2_lengthD)
qed

lemma aggregate_Inr:
  assumes "aggregate d keys ad nc = Inr t"
  shows "columns t = keys @ nc" and "length (rows t) \<le> length (rows d)"
    and "length nc = length ad"
proof -
  from assms obtain g g' where g: "groupby_agg d keys ad = Inr g"
    and g': "set_columns g nc = Inr g'" and t: "reset_index g' = Inr t"
    unfolding aggregate_def by (auto simp: bindE_eq_Inr)
  note gg = groupby_agg_Inr [OF g]
  from g' have g'_eq: "g' = \<lparr>index_names = index_names g, index = index g,
      labels = nc, group_values = group_values g\<rparr>" and len: "length nc = length (labels g)"
    by (auto simp: set_columns_def split: if_splits)
  from t have t_eq: "t = \<lparr>columns = index_names g' @ labels g',
      rows = map (\<lambda>(k, v). k @ v) (zip (index g') (group_values g'))\<rparr>"
    by (auto simp: reset_index_def split: if_splits)
  show "columns t = keys @ nc" by (simp add: t_eq g'_eq gg)
  show "length (rows t) \<le> length (rows d)" using gg(3,4) by (simp add: t_eq g'_eq)
  show "length nc = length ad" using len gg(2) by simp
qed

lemma aggregate_all_Inr:
  assumes "aggregate_all bin_region_column ad nc data = Inr data'"
  shows "list_all2 (\<lambda>(n, d) (n', t). n' = n \<and>
           (if bin_region_column = ''state'' \<or> bin_region_column = ''country''
            then aggregate d (case_keys bin_region_column) ad nc = Inr t
            else t = d)) data data'"
  using assms
proof (induction data arbitrary: data')
  case Nil
  then show ?case by simp
next
  case (Cons a data)
  obtain n d where a: "a = (n, d)" by (cases a)
  from Cons.prems obtain t rest where
    t: "(if bin_region_column = ''county'' then Inr d
         else if bin_region_column = ''state'' then
           aggregate d [''Province/State'', ''Country/Region''] ad nc
         else if bin_region_column = ''country'' then
           aggregate d [''Country/Region''] ad nc
         else Inr d) = Inr t"
    and rest: "aggregate_all bin_region_column ad nc data = Inr rest"
    and d': "data' = (n, t) # rest"
    unfolding a aggregate_all.simps by (auto simp: bindE_eq_Inr)
  have "if bin_region_column = ''state'' \<or> bin_region_column = ''country''
        then aggregate d (case_keys bin_region_column) ad nc = Inr t else t = d"
    using t by (auto simp: case_keys_def split: if_splits)
  with Cons.IH [OF rest] show ?case by (simp add: a d')
qed

lemma filled_tables_eq:
  "filled_tables self g = map (\<lambda>(n, d). (n, fillna d (Str ''none''))) (source_tables self g)"
  by (simp add: filled_tables_def source_tables_def)

lemma getData_unfold:
  "getData self g country sd =
     (if \<not> (g = ''county'' \<or> g = ''state'' \<or> g = ''country'')
      then Inl (AssertionError
        ''Invalid region parsed to bin_region_column! Needs to be county, state or country'')
      else
        bindE (case country of None \<Rightarrow> Inr (filled_tables self g)
               | Some c \<Rightarrow> filter_country (filled_tables self g) c) (\<lambda>data.
        bindE (dict_get data ''confirmed'') (\<lambda>confirmed.
        bindE (select_dates (drop 5 (columns confirmed)) sd) (\<lambda>(agg_dict, new_columns).
        bindE (aggregate_all g agg_dict new_columns data) (\<lambda>data.
        bindE (routesToWeightedEdges self g country) (\<lambda>routes.
          Inr (data, routes)))))))"
  unfolding getData_def filled_tables_def Let_def by (rule refl)

lemma filter_step_Inr:
  assumes "(case country of None \<Rightarrow> Inr (filled_tables self g)
            | Some c \<Rightarrow> filter_country (filled_tables self g) c) = Inr data"
  shows "data = map (\<lambda>(n, d). (n, selected_cases d country)) (source_tables self g)"
proof (cases country)
  case None
  with assms show ?thesis
    by (simp add: filled_tables_eq selected_cases_def restrict_country_def)
next
  case (Some c)
  with assms have "filter_country (filled_tables self g) c = Inr data" by simp
  from filter_country_Inr [OF this] Some show ?thesis
    by (simp add: filled_tables_eq selected_cases_def case_prod_unfold comp_def)
qed

lemma dict_get_confirmed:
  "dict_get (map (\<lambda>(n, d). (n, f d)) (source_tables self g)) ''confirmed''
     = Inr (f (confirmed_df self))"
  by (simp add: source_tables_def)

lemma columns_selected_cases [simp]: "columns (selected_cases d country) = columns d"
  by (simp add: selected_cases_def)

lemma getData_Inr:
  assumes "getData self g country sd = Inr (data, routes)"
  shows "g = ''county'' \<or> g = ''state'' \<or> g = ''country''"
    and "\<exists>ad nc. select_dates (drop 5 (columns (confirmed_df self))) sd = Inr (ad, nc)
           \<and> aggregate_all g ad nc
                (map (\<lambda>(n, d). (n, selected_cases d country)) (source_tables self g)) = Inr data"
    and "routesToWeightedEdges self g country = Inr routes"
proof -
  show valid: "g = ''county'' \<or> g = ''state'' \<or> g = ''country''"
    using assms unfolding getData_unfold by (auto split: if_splits)
  let ?src = "map (\<lambda>(n, d). (n, selected_cases d country)) (source_tables self g)"
  from assms valid obtain data1 confirmed ad nc where
    d1: "(case country of None \<Rightarrow> Inr (filled_tables self g)
          | Some c \<Rightarrow> filter_country (filled_tables self g) c) = Inr data1"
    and cf: "dict_get data1 ''confirmed'' = Inr confirmed"
    and sel: "select_dates (drop 5 (columns confirmed)) sd = Inr (ad, nc)"
    and agg: "aggregate_all g ad nc data1 = Inr data"
    and r: "routesToWeightedEdges self g country = Inr routes"
    unfolding getData_unfold by (auto simp: bindE_eq_Inr split: if_splits)
  have data1: "data1 = ?src" by (rule filter_step_Inr [OF d1])
  have "confirmed = selected_cases (confirmed_df self) country"
    using cf unfolding data1 dict_get_confirmed by simp
  with sel agg data1
  show "\<exists>ad nc. select_dates (drop 5 (columns (confirmed_df self))) sd = Inr (ad, nc)
           \<and> aggregate_all g ad nc ?src = Inr data"
    by auto
  show "routesToWeightedEdges self g country = Inr routes" by (rule r)
qed

lemma filter_country_total:
  "list_all (\<lambda>(n, d). ''Country/Region'' \<in> set (columns d)) data \<Longrightarrow>
     \<exists>data'. filter_country data c = Inr data'"
proof (induction data)
  case Nil
  then show ?case by simp
next
  case (Cons a data)
  obtain n d where a: "a = (n, d)" by (cases a)
  from Cons.prems a obtain m where "eq_mask d ''Country/Region'' c = Inr m"
    using eq_mask_total [of "''Country/Region''" d c] by auto
  moreover from Cons obtain rest where "filter_country data c = Inr rest" by auto
  ultimately show ?case by (simp add: a)
qed

lemma filter_step_total:
  assumes "country \<noteq> None \<longrightarrow>
             list_all (\<lambda>(n, d). ''Country/Region'' \<in> set (columns d)) (source_tables self g)"
  shows "(case country of None \<Rightarrow> Inr (filled_tables self g)
          | Some c \<Rightarrow> filter_country (filled_tables self g) c)
         = Inr (map (\<lambda>(n, d). (n, selected_cases d country)) (source_tables self g))"
proof -
  have "\<exists>data. (case country of None \<Rightarrow> Inr (filled_tables self g)
          | Some c \<Rightarrow> filter_country (filled_tables self g) c) = Inr data"
  proof (cases country)
    case None
    then show ?thesis by simp
  next
    case (Some c)
    with assms have "list_all (\<lambda>(n, d). ''Country/Region'' \<in> set (columns d))
                       (filled_tables self g)"
      by (simp add: filled_tables_eq list_all_iff case_prod_unfold)
    from filter_country_total [OF this] Some show ?thesis by simp
  qed
  then obtain data where d: "(case country of None \<Rightarrow> Inr (filled_tables self g)
          | Some c \<Rightarrow> filter_country (filled_tables self g) c) = Inr data" by blast
  from filter_step_Inr [OF d] d show ?thesis by simp
qed

lemma aggregate_all_names:
  "aggregate_all g ad nc data = Inr data' \<Longrightarrow> map fst data' = map fst data"
proof (induction data arbitrary: data')
  case Nil
  then show ?case by simp
next
  case (Cons a data)
  obtain n d where a: "a = (n, d)" by (cases a)
  from Cons.prems obtain t rest where "aggregate_all g ad nc data = Inr rest"
    "data' = (n, t) # rest"
    unfolding a aggregate_all.simps by (auto simp: bindE_eq_Inr)
  with Cons.IH show ?case by (simp add: a)
qed

lemma getData_ignores_recovered:
  "g \<noteq> ''country'' \<Longrightarrow> getData (self\<lparr>recovered_df := x\<rparr>) g country sd = getData self g country sd"
  by (simp add: getData_def routesToWeightedEdges_def)

lemma example_county:
  "getData example_self ''county'' None None =
     Inr (example_county_tables, Some example_county_routes)"
  by code_simp

lemma example_state:
  "getData example_self ''state'' None None =
     Inr (example_state_tables, Some example_state_routes)"
  by code_simp

lemma example_country_latest:
  "getData example_self ''country'' None (Some ''latest'') =
     Inr (example_latest_tables, Some example_country_routes)"
  by code_simp




lemma list_all2_source_nonempty:
  "list_all2 P (map f (source_tables self g)) data \<Longrightarrow>
     \<exists>t rest. data = t # rest \<and> P (f (''confirmed'', confirmed_df self)) t"
  by (auto simp: source_tables_def list_all2_Cons1)

lemma getData_aggregated:
  assumes "getData self g country sd = Inr (data, routes)"
    and "g = ''state'' \<or> g = ''country''"
  shows "\<exists>ad nc. select_dates (drop 5 (columns (confirmed_df self))) sd = Inr (ad, nc)
           \<and> length nc = length ad
           \<and> list_all2 (\<lambda>(n, d) (n', t). n' = n \<and>
                 aggregate (selected_cases d country) (case_keys g) ad nc = Inr t)
               (source_tables self g) data"
proof -
  from getData_Inr(2) [OF assms(1)] obtain ad nc where
    sel: "select_dates (drop 5 (columns (confirmed_df self))) sd = Inr (ad, nc)"
    and agg: "aggregate_all g ad nc
                (map (\<lambda>(n, d). (n, selected_cases d country)) (source_tables self g)) = Inr data"
    by blast
  from aggregate_all_Inr [OF agg] assms(2)
  have l2: "list_all2 (\<lambda>(n, d) (n', t). n' = n \<and> aggregate d (case_keys g) ad nc = Inr t)
              (map (\<lambda>(n, d). (n, selected_cases d country)) (source_tables self g)) data"
    by (auto elim!: list_all2_mono)
  then have l2': "list_all2 (\<lambda>(n, d) (n', t). n' = n \<and>
                 aggregate (selected_cases d country) (case_keys g) ad nc = Inr t)
               (source_tables self g) data"
    by (simp add: list_all2_map1 case_prod_unfold)
  from list_all2_source_nonempty [OF l2] obtain t where
    "aggregate (selected_cases (confirmed_df self) country) (case_keys g) ad nc = Inr (snd t)"
    by (auto simp: case_prod_unfold)
  from aggregate_Inr(3) [OF this] sel l2' show ?thesis by blast
qed


text \<open>
  The two methods on a granularity that is none of the three: \<^verbatim>\<open>getData\<close> asserts, and
  \<^verbatim>\<open>routesToWeightedEdges\<close> returns \<^verbatim>\<open>None\<close>.
\<close>

lemma getData_rejects_unknown_granularity:
  "g \<noteq> ''county'' \<Longrightarrow> g \<noteq> ''state'' \<Longrightarrow> g \<noteq> ''country'' \<Longrightarrow>
     getData self g country sd = Inl (AssertionError
       ''Invalid region parsed to bin_region_column! Needs to be county, state or country'')"
  by (simp add: getData_def)

lemma routes_accepts_unknown_granularity:
  "g \<noteq> ''county'' \<Longrightarrow> g \<noteq> ''state'' \<Longrightarrow> g \<noteq> ''country'' \<Longrightarrow>
     routesToWeightedEdges self g None = Inr None"
  by (simp add: routesToWeightedEdges_def)

text \<open>The rows of the route counts: one per key, with the number of rows that have the key.\<close>

lemma get_loc_append_old: "k \<in> set cs \<Longrightarrow> get_loc (cs @ ys) k = get_loc cs k"
  by (induction cs) auto

lemma get_locs_setitem:
  "set keys \<subseteq> set (columns d) \<Longrightarrow>
     get_locs (columns (setitem d c v)) keys = get_locs (columns d) keys"
proof (induction keys)
  case Nil
  then show ?case by simp
next
  case (Cons k keys)
  then have "get_loc (columns (setitem d c v)) k = get_loc (columns d) k"
    by (simp add: setitem_def get_loc_append_old split: option.splits)
  with Cons show ?case by (simp split: option.splits)
qed

lemma get_locs_pos:
  "get_locs cs keys = Inr ks \<Longrightarrow> k \<in> set ks \<Longrightarrow> \<exists>a\<in>set keys. get_loc cs a = Some k"
proof (induction keys arbitrary: ks)
  case Nil
  then show ?case by simp
next
  case (Cons a keys)
  then show ?case by (auto simp: bindE_eq_Inr split: option.splits)
qed

lemma get_locs_cols: "get_locs cs keys = Inr ks \<Longrightarrow> set keys \<subseteq> set cs"
proof (induction keys arbitrary: ks)
  case Nil
  then show ?case by simp
next
  case (Cons a keys)
  from Cons.prems obtain i js where "get_loc cs a = Some i" "get_locs cs keys = Inr js"
    by (auto simp: bindE_eq_Inr split: option.splits)
  with Cons.IH [of js] get_loc_None [of cs a] show ?case by auto
qed

lemma key_of_setitem:
  assumes wf: "wf_df d" and ks: "get_locs (columns d) keys = Inr ks" and c: "c \<notin> set keys"
  shows "map (key_of ks) (rows (setitem d c v)) = map (key_of ks) (rows d)"
proof -
  have len: "\<And>r. r \<in> set (rows d) \<Longrightarrow> length r = length (columns d)"
    using wf by (simp add: wf_df_def list_all_iff)
  have pos: "k < length (columns d) \<and> columns d ! k \<in> set keys" if "k \<in> set ks" for k
  proof -
    from get_locs_pos [OF ks that] obtain a where "a \<in> set keys" "get_loc (columns d) a = Some k"
      by blast
    with get_loc_Some [of "columns d" a k] show ?thesis by simp
  qed
  show ?thesis
  proof (cases "get_loc (columns d) c")
    case None
    have "key_of ks (r @ [v]) = key_of ks r" if "r \<in> set (rows d)" for r
      using pos len [OF that] by (simp add: key_of_def nth_append)
    with None show ?thesis by (simp add: setitem_def)
  next
    case (Some p)
    from get_loc_Some [OF Some] have p: "columns d ! p = c" by simp
    have "p \<notin> set ks"
      using pos p c by auto
    then have "r[p := v] ! k = r ! k" if "k \<in> set ks" for k r
      using that by (intro nth_list_update_neq) auto
    then have "key_of ks (r[p := v]) = key_of ks r" for r
      by (simp add: key_of_def)
    with Some show ?thesis by (simp add: setitem_def)
  qed
qed

lemma group_keys_cong:
  "map (key_of ks) rs = map (key_of ks) rs' \<Longrightarrow> group_keys ks rs = group_keys ks rs'"
  by (simp add: group_keys_def)

lemma length_members_cong:
  assumes "map (key_of ks) rs = map (key_of ks) rs'"
  shows "length (members ks rs g) = length (members ks rs' g)"
proof -
  have e: "length (members ks xs g) = length (filter (\<lambda>k. k = g) (map (key_of ks) xs))" for xs
    by (induction xs) (simp_all add: members_def)
  show ?thesis by (simp only: e assms)
qed

lemma count_groups_rows:
  assumes wf: "wf_df d"
    and ks: "get_locs (columns d) keys = Inr ks"
    and c: "get_loc (columns d) c = Some p" "c \<notin> set keys"
    and ones: "\<And>r. r \<in> set (rows d) \<Longrightarrow> r ! p = Num 1"
    and filled: "\<And>r. r \<in> set (rows d) \<Longrightarrow> NaN \<notin> set r"
  shows "bindE (groupby_sum d keys c) reset_index =
           Inr \<lparr>columns = keys @ [c],
                rows = map (\<lambda>g. g @ [Num (real (length (members ks (rows d) g)))])
                         (group_keys ks (rows d))\<rparr>"
proof -
  from get_locs_bounds [OF ks] have lks: "length ks = length keys"
    and bks: "\<And>k. k \<in> set ks \<Longrightarrow> k < length (columns d)" by auto
  have len: "\<And>r. r \<in> set (rows d) \<Longrightarrow> length r = length (columns d)"
    using wf by (simp add: wf_df_def list_all_iff)
  have gr: "grouped_rows ks (rows d) = rows d"
    by (rule grouped_rows_no_NaN) (auto simp: filled len bks)
  define gs where "gs = group_keys ks (rows d)"
  define cnt where "cnt = (\<lambda>g. real (length (members ks (rows d) g)))"
  have agg: "agg_apply AggSum (map (\<lambda>r. r ! p) (members ks (rows d) g)) = Inr (Num (cnt g))" for g
    using agg_sum_ones [of "map (\<lambda>r. r ! p) (members ks (rows d) g)"] set_members [of ks "rows d" g] ones
    by (auto simp: cnt_def)
  have vals: "mapE (\<lambda>g. mapE (\<lambda>(v, f). agg_apply f (map (\<lambda>r. r ! v) (members ks (rows d) g)))
                 (zip [p] (map snd [(c, AggSum)]))) gs = Inr (map (\<lambda>g. [Num (cnt g)]) gs)"
    by (rule mapE_map) (simp add: agg)
  define s :: "string indexed" where
    "s = \<lparr>index_names = keys, index = gs, labels = [c], group_values = map (\<lambda>g. [Num (cnt g)]) gs\<rparr>"
  have s: "groupby_sum d keys c = Inr s"
    using ks c vals by (simp add: groupby_sum_def groupby_agg_def gr gs_def [symmetric] s_def)
  have "map (\<lambda>(k, v). k @ v) (zip gs (map (\<lambda>g. [Num (cnt g)]) gs)) = map (\<lambda>g. g @ [Num (cnt g)]) gs"
    by (induction gs) simp_all
  then have "reset_index s = Inr \<lparr>columns = keys @ [c], rows = map (\<lambda>g. g @ [Num (cnt g)]) gs\<rparr>"
    using c by (simp add: reset_index_def s_def)
  with s show ?thesis by (simp add: gs_def cnt_def)
qed

lemma routes_unfold:
  assumes cc: "set [''DepartCountry/Region'', ''ArrivalCountry/Region''] \<subseteq> set (columns (routes_df self))"
    and g: "g = ''county'' \<or> g = ''state'' \<or> g = ''country''"
  shows "routesToWeightedEdges self g country =
           bindE (bindE (groupby_sum (setitem (selected_routes self country) ''NumberOfRoutes'' (Num 1))
                           (route_keys g) ''NumberOfRoutes'') reset_index) (\<lambda>r. Inr (Some r))"
  unfolding routesToWeightedEdges_def Let_def routes_filter_step [OF cc]
  using g by (auto simp: route_keys_def bindE_def split: sum.splits)

text \<open>When \<^verbatim>\<open>getData\<close> returns, and the keys of what it returns.\<close>

lemma dict_set_new: "k \<notin> fst ` set d \<Longrightarrow> dict_set d k v = d @ [(k, v)]"
  by (induction d k v rule: dict_set.induct) auto

lemma fold_dict_set:
  "distinct ds \<Longrightarrow> set ds \<inter> fst ` set acc = {} \<Longrightarrow>
     fold (\<lambda>date d. dict_set d date f) ds acc = acc @ map (\<lambda>d. (d, f)) ds"
proof (induction ds arbitrary: acc)
  case Nil
  then show ?case by simp
next
  case (Cons a ds)
  from Cons.prems have a: "a \<notin> fst ` set acc" by auto
  have "set ds \<inter> fst ` set (acc @ [(a, f)]) = {}"
    using Cons.prems by auto
  with Cons.IH [of "acc @ [(a, f)]"] Cons.prems show ?case
    by (simp add: dict_set_new [OF a])
qed

lemma select_dates_total:
  assumes "case sd of None \<Rightarrow> True
           | Some d \<Rightarrow> if d = ''latest'' then dates \<noteq> [] else d \<in> set dates"
    and "distinct ([''Lat'', ''Long''] @ selected_dates dates sd)"
  shows "select_dates dates sd =
           Inr ([(''Lat'', AggMean), (''Long'', AggMean)]
                  @ map (\<lambda>d. (d, AggSum)) (selected_dates dates sd),
                [''Lat'', ''Long''] @ selected_dates dates sd)"
proof (cases sd)
  case None
  have "fold (\<lambda>date d. dict_set d date AggSum) dates [(''Lat'', AggMean), (''Long'', AggMean)]
        = [(''Lat'', AggMean), (''Long'', AggMean)] @ map (\<lambda>d. (d, AggSum)) dates"
    using assms(2) None by (intro fold_dict_set) (auto simp: selected_dates_def)
  with None show ?thesis by (simp add: select_dates_def selected_dates_def)
next
  case (Some d)
  with assms show ?thesis
    by (auto simp: select_dates_def selected_dates_def Let_def)
qed

lemma agg_locs_total:
  "set as \<subseteq> set cs \<Longrightarrow> set as \<inter> set keys = {} \<Longrightarrow> \<exists>vs. agg_locs cs keys as = Inr vs"
proof (induction as)
  case Nil
  then show ?case by simp
next
  case (Cons a as)
  then obtain vs where "agg_locs cs keys as = Inr vs" by auto
  moreover from Cons.prems obtain i where "get_loc cs a = Some i"
    using get_loc_None [of cs a] by (cases "get_loc cs a") auto
  ultimately show ?case using Cons.prems by simp
qed

lemma agg_locs_pos:
  "agg_locs cs keys as = Inr vs \<Longrightarrow> v \<in> set vs \<Longrightarrow> \<exists>a\<in>set as. get_loc cs a = Some v"
proof (induction as arbitrary: vs)
  case Nil
  then show ?case by simp
next
  case (Cons a as)
  then show ?case by (auto simp: bindE_eq_Inr split: option.splits if_splits)
qed

lemma mapE_total: "(\<And>x. x \<in> set xs \<Longrightarrow> \<exists>y. f x = Inr y) \<Longrightarrow> \<exists>ys. mapE f xs = Inr ys"
proof (induction xs)
  case Nil
  then show ?case by simp
next
  case (Cons x xs)
  from Cons.prems [of x] obtain y where "f x = Inr y" by auto
  moreover from Cons obtain ys where "mapE f xs = Inr ys" by auto
  ultimately show ?case by simp
qed

lemma agg_apply_total: "list_all is_Num cs \<Longrightarrow> \<exists>y. agg_apply f cs = Inr y"
  by (cases f) (auto simp: agg_apply_def list_all_iff Let_def)

lemma groupby_agg_total:
  assumes keys: "set keys \<subseteq> set (columns d)"
    and aggs: "set (map fst ad) \<subseteq> set (columns d)" "set (map fst ad) \<inter> set keys = {}"
    and num: "\<And>r a i. r \<in> set (rows d) \<Longrightarrow> a \<in> set (map fst ad) \<Longrightarrow>
                get_loc (columns d) a = Some i \<Longrightarrow> is_Num (r ! i)"
  shows "\<exists>g. groupby_agg d keys ad = Inr g"
proof -
  from get_locs_total [OF keys] obtain ks where ks: "get_locs (columns d) keys = Inr ks" by blast
  from agg_locs_total [OF aggs] obtain vs where
    vs: "agg_locs (columns d) keys (map fst ad) = Inr vs" by blast
  let ?rs = "grouped_rows ks (rows d)"
  have cell: "\<exists>y. agg_apply f (map (\<lambda>r. r ! v) (members ks ?rs g)) = Inr y"
    if "(v, f) \<in> set (zip vs (map snd ad))" for v f g
  proof -
    from that have "v \<in> set vs" by (rule set_zip_leftD)
    from agg_locs_pos [OF vs this] obtain a where a: "a \<in> set (map fst ad)"
        "get_loc (columns d) a = Some v"
      by blast
    have "set (members ks ?rs g) \<subseteq> set (rows d)"
      by (auto simp: members_def grouped_rows_def)
    with num [OF _ a] have "list_all is_Num (map (\<lambda>r. r ! v) (members ks ?rs g))"
      by (auto simp: list_all_iff)
    then show ?thesis by (rule agg_apply_total)
  qed
  have "\<exists>vals. mapE (\<lambda>g. mapE (\<lambda>(v, f). agg_apply f (map (\<lambda>r. r ! v) (members ks ?rs g)))
                        (zip vs (map snd ad))) (group_keys ks ?rs) = Inr vals"
    by (intro mapE_total) (use cell in auto)
  then show ?thesis
    using ks vs by (auto simp: groupby_agg_def Let_def)
qed

lemma aggregate_total:
  assumes keys: "set keys \<subseteq> set (columns d)"
    and aggs: "set (map fst ad) \<subseteq> set (columns d)" "set (map fst ad) \<inter> set keys = {}"
    and num: "\<And>r a i. r \<in> set (rows d) \<Longrightarrow> a \<in> set (map fst ad) \<Longrightarrow>
                get_loc (columns d) a = Some i \<Longrightarrow> is_Num (r ! i)"
    and len: "length nc = length ad" and disj: "set keys \<inter> set nc = {}"
  shows "\<exists>t. aggregate d keys ad nc = Inr t"
proof -
  have "\<exists>g. groupby_agg d keys ad = Inr g"
  proof (rule groupby_agg_total)
    show "set keys \<subseteq> set (columns d)" by (rule keys)
    show "set (map fst ad) \<subseteq> set (columns d)" by (rule aggs(1))
    show "set (map fst ad) \<inter> set keys = {}" by (rule aggs(2))
    show "is_Num (r ! i)" if "r \<in> set (rows d)" "a \<in> set (map fst ad)"
        "get_loc (columns d) a = Some i" for r a i
      using that by (rule num)
  qed
  then obtain g where g: "groupby_agg d keys ad = Inr g"
    by blast
  note gg = groupby_agg_Inr(1,2) [OF g]
  show ?thesis
    using g gg len disj by (simp add: aggregate_def set_columns_def reset_index_def)
qed

lemma aggregable_cell:
  "aggregable d keys aggs \<Longrightarrow> r \<in> set (rows d) \<Longrightarrow> c \<in> set aggs \<Longrightarrow>
     get_loc (columns d) c = Some i \<Longrightarrow> is_Num (r ! i)"
  by (auto simp: aggregable_def list_all_iff split: option.splits)

lemma aggregable_selected:
  assumes "aggregable d keys aggs"
  shows "aggregable (selected_cases d country) keys aggs"
proof -
  let ?f = "fillna d (Str ''none'')"
  from assms have wf: "wf_df d" and cols: "set (keys @ aggs) \<subseteq> set (columns d)"
    and num: "\<And>r c. r \<in> set (rows d) \<Longrightarrow> c \<in> set aggs \<Longrightarrow>
                (case get_loc (columns d) c of None \<Rightarrow> False | Some i \<Rightarrow> is_Num (r ! i))"
    by (auto simp: aggregable_def list_all_iff)
  have len: "\<And>r. r \<in> set (rows d) \<Longrightarrow> length r = length (columns d)"
    using wf by (simp add: wf_df_def list_all_iff)
  have "case get_loc (columns d) c of None \<Rightarrow> False | Some i \<Rightarrow> is_Num (r' ! i)"
    if r': "r' \<in> set (rows (selected_cases d country))" and c: "c \<in> set aggs" for r' c
  proof -
    from r' set_rows_restrict [of ?f "[''Country/Region'']" country]
    have "r' \<in> set (rows ?f)" by (auto simp: selected_cases_def)
    then obtain r where r: "r \<in> set (rows d)" and r'_eq: "r' = map (\<lambda>x. if x = NaN then Str ''none'' else x) r"
      by (auto simp: fillna_def)
    from num [OF r c] obtain i where i: "get_loc (columns d) c = Some i" "is_Num (r ! i)"
      by (auto split: option.splits)
    from get_loc_Some [OF i(1)] len [OF r] have "i < length r" by simp
    with i show ?thesis by (auto simp: r'_eq)
  qed
  moreover have "wf_df (selected_cases d country)"
    using wf by (simp add: selected_cases_def wf_restrict)
  ultimately show ?thesis using cols by (simp add: aggregable_def list_all_iff)
qed

lemma aggregate_all_total:
  assumes "g = ''county'' \<or> g = ''state'' \<or> g = ''country''"
    and "g \<noteq> ''county'' \<Longrightarrow>
           list_all (\<lambda>(n, d). \<exists>t. aggregate d (case_keys g) ad nc = Inr t) data"
  shows "\<exists>data'. aggregate_all g ad nc data = Inr data'"
  using assms(2)
proof (induction data)
  case Nil
  then show ?case by simp
next
  case (Cons a data)
  obtain n d where a: "a = (n, d)" by (cases a)
  from Cons obtain rest where rest: "aggregate_all g ad nc data = Inr rest" by auto
  have "\<exists>t. (if g = ''county'' then Inr d
         else if g = ''state'' then
           aggregate d [''Province/State'', ''Country/Region''] ad nc
         else if g = ''country'' then
           aggregate d [''Country/Region''] ad nc
         else Inr d) = Inr t"
    using Cons.prems assms(1) by (auto simp: a case_keys_def)
  then show ?case using rest by (auto simp: a)
qed

lemma getData_total:
  assumes "getData_ready self g country sd"
  shows "\<exists>data routes. getData self g country sd = Inr (data, routes)"
proof -
  let ?dates = "drop 5 (columns (confirmed_df self))"
  let ?sel = "selected_dates ?dates sd"
  let ?aggs = "[''Lat'', ''Long''] @ ?sel"
  let ?ad = "[(''Lat'', AggMean), (''Long'', AggMean)] @ map (\<lambda>d. (d, AggSum)) ?sel"
  let ?src = "map (\<lambda>(n, d). (n, selected_cases d country)) (source_tables self g)"
  from assms have g: "g = ''county'' \<or> g = ''state'' \<or> g = ''country''"
    and sd: "case sd of None \<Rightarrow> True
             | Some d \<Rightarrow> if d = ''latest'' then ?dates \<noteq> [] else d \<in> set ?dates"
    and cr: "country \<noteq> None \<longrightarrow>
               list_all (\<lambda>(n, d). ''Country/Region'' \<in> set (columns d)) (source_tables self g)"
    and tabs: "g \<noteq> ''county'' \<Longrightarrow>
               list_all (\<lambda>(n, d). aggregable d (case_keys g) ?aggs) (source_tables self g)"
    and dist: "g \<noteq> ''county'' \<Longrightarrow> distinct ?aggs \<and> set ?aggs \<inter> set (case_keys g) = {}"
    and wf: "wf_df (routes_df self)"
    and rk: "set (route_keys g) \<subseteq> set (columns (routes_df self))"
    unfolding getData_ready_def Let_def by (auto simp: list_all_iff)
  from routes_result [OF wf rk g, of country] obtain t where
    routes: "routesToWeightedEdges self g country = Inr (Some t)" by blast
  have "\<exists>ad nc data. select_dates ?dates sd = Inr (ad, nc) \<and> aggregate_all g ad nc ?src = Inr data"
  proof (cases "g = ''county''")
    case True
    have "\<exists>ad nc. select_dates ?dates sd = Inr (ad, nc)"
      using sd by (auto simp: select_dates_def Let_def split: option.splits)
    moreover have "\<exists>data. aggregate_all g ad nc ?src = Inr data" for ad nc
      by (rule aggregate_all_total [OF g]) (simp add: True)
    ultimately show ?thesis by blast
  next
    case False
    note d = dist [OF False]
    from d have sel: "select_dates ?dates sd = Inr (?ad, ?aggs)"
      by (intro select_dates_total [OF sd]) simp
    have one: "\<exists>t. aggregate (selected_cases d country) (case_keys g) ?ad ?aggs = Inr t"
      if "aggregable d (case_keys g) ?aggs" for d
    proof -
      let ?d = "selected_cases d country"
      from aggregable_selected [OF that, of country]
      have a: "aggregable ?d (case_keys g) ?aggs" .
      have fst_ad: "map fst ?ad = ?aggs" by (simp add: comp_def)
      show ?thesis
      proof (rule aggregate_total)
        show "set (case_keys g) \<subseteq> set (columns ?d)"
          using a by (simp add: aggregable_def)
        show "set (map fst ?ad) \<subseteq> set (columns ?d)"
          unfolding fst_ad using a by (simp add: aggregable_def)
        show "set (map fst ?ad) \<inter> set (case_keys g) = {}"
          unfolding fst_ad using d by simp
        show "is_Num (r ! i)" if "r \<in> set (rows ?d)" "c \<in> set (map fst ?ad)"
          "get_loc (columns ?d) c = Some i" for r c i
          using aggregable_cell [OF a that(1) _ that(3)] that(2) unfolding fst_ad by blast
        show "length ?aggs = length ?ad" by simp
        show "set (case_keys g) \<inter> set ?aggs = {}" using d by auto
      qed
    qed
    have "list_all (\<lambda>(n, d). \<exists>t. aggregate d (case_keys g) ?ad ?aggs = Inr t) ?src"
      using tabs [OF False] one by (auto simp: list_all_iff)
    with aggregate_all_total [OF g, of ?ad ?aggs ?src] sel show ?thesis by blast
  qed
  then obtain ad nc data where sel: "select_dates ?dates sd = Inr (ad, nc)"
    and agg: "aggregate_all g ad nc ?src = Inr data" by blast
  have "getData self g country sd = Inr (data, Some t)"
    unfolding getData_unfold filter_step_total [OF cr]
    using g sel agg routes by (simp add: dict_get_confirmed)
  then show ?thesis by blast
qed

lemma getData_keys:
  assumes "getData self g country sd = Inr (data, routes)"
  shows "map fst data = (if g = ''country'' then [''confirmed'', ''deaths'', ''recovered'']
                            else [''confirmed'', ''deaths''])"
proof -
  from getData_Inr(2) [OF assms] obtain ad nc where
    "aggregate_all g ad nc
       (map (\<lambda>(n, d). (n, selected_cases d country)) (source_tables self g)) = Inr data"
    by blast
  from aggregate_all_names [OF this] show ?thesis
    by (simp add: source_tables_def)
qed

lemma getData_recovered_entry:
  assumes "getData self ''country'' country sd = Inr (data, routes)"
  shows "\<exists>ad nc. select_dates (drop 5 (columns (confirmed_df self))) sd = Inr (ad, nc)
           \<and> dict_get data ''recovered'' =
               aggregate (selected_cases (recovered_df self) country) [''Country/Region''] ad nc"
proof -
  from getData_aggregated [OF assms] obtain ad nc where
    sel: "select_dates (drop 5 (columns (confirmed_df self))) sd = Inr (ad, nc)"
    and l2: "list_all2 (\<lambda>(n, d) (n', t). n' = n \<and>
                 aggregate (selected_cases d country) (case_keys ''country'') ad nc = Inr t)
               (source_tables self ''country'') data"
    by blast
  from l2 have "dict_get data ''recovered'' =
      aggregate (selected_cases (recovered_df self) country) [''Country/Region''] ad nc"
    by (auto simp: source_tables_def case_keys_def list_all2_Cons1)
  with sel show ?thesis by blast
qed

section \<open>The store: what a call can change, and what it computes\<close>

lemma frameI:
  assumes "\<And>s r s'. n \<le> length s \<Longrightarrow> m s = (r, s') \<Longrightarrow>
            length s \<le> length s' \<and> take n s' = take n s \<and> (\<forall>x. r = Inr x \<longrightarrow> Q x)"
  shows "frame n m Q"
  unfolding frame_def using assms by (auto split: prod.splits sum.splits)

lemma frameD:
  assumes "frame n m Q" "n \<le> length s" "m s = (r, s')"
  shows "length s \<le> length s'" "take n s' = take n s" "r = Inr x \<Longrightarrow> Q x"
  using assms unfolding frame_def by (auto split: prod.splits sum.splits)

lemma frame_weaken: "frame n m Q \<Longrightarrow> (\<And>x. Q x \<Longrightarrow> R x) \<Longrightarrow> frame n m R"
  unfolding frame_def by (auto split: prod.splits sum.splits)

lemma frame_ret: "Q x \<Longrightarrow> frame n (ret x) Q"
  by (simp add: frame_def ret_def)

lemma frame_liftE: "frame n (liftE r) (\<lambda>_. True)"
  by (simp add: frame_def liftE_def split: sum.splits)

lemma frame_bnd:
  assumes m: "frame n m Q" and f: "\<And>x. Q x \<Longrightarrow> frame n (f x) R"
  shows "frame n (bnd m f) R"
proof (rule frameI)
  fix s r s'
  assume n: "n \<le> length s" and run: "bnd m f s = (r, s')"
  obtain r1 s1 where m1: "m s = (r1, s1)" by (cases "m s")
  note d1 = frameD [OF m n m1]
  show "length s \<le> length s' \<and> take n s' = take n s \<and> (\<forall>x. r = Inr x \<longrightarrow> R x)"
  proof (cases r1)
    case (Inl e)
    with run m1 have "r = Inl e" "s' = s1" by (simp_all add: bnd_def)
    with d1 show ?thesis by simp
  next
    case (Inr x)
    with run m1 have fx: "f x s1 = (r, s')" by (simp add: bnd_def)
    from d1(3) [OF Inr] have "frame n (f x) R" by (rule f)
    moreover have "n \<le> length s1" using n d1(1) by simp
    ultimately have "length s1 \<le> length s'" "take n s' = take n s1" "\<And>y. r = Inr y \<Longrightarrow> R y"
      using fx by (auto dest: frameD)
    with d1 show ?thesis by auto
  qed
qed

lemma frame_alloc: "frame n (alloc x) (\<lambda>a. n \<le> a)"
  by (simp add: frame_def alloc_def)

lemma frame_get_frame: "frame n (get_frame r) (\<lambda>_. True)"
  by (simp add: frame_def get_frame_def split: obj.splits)

lemma frame_copy_deep: "frame n (copy_deep r) (\<lambda>a. n \<le> a)"
  unfolding copy_deep_def by (rule frame_bnd [OF frame_get_frame frame_alloc])

lemma frame_fillna: "frame n (fillna_obj r v) (\<lambda>a. n \<le> a)"
  unfolding fillna_obj_def by (rule frame_bnd [OF frame_get_frame frame_alloc])

lemma frame_loc: "frame n (loc_obj r m) (\<lambda>a. n \<le> a)"
  unfolding loc_obj_def by (rule frame_bnd [OF frame_get_frame frame_alloc])

lemma frame_eq_mask: "frame n (eq_mask_obj r c v) (\<lambda>_. True)"
  unfolding eq_mask_obj_def by (rule frame_bnd [OF frame_get_frame frame_liftE])

lemma frame_columns: "frame n (columns_obj r) (\<lambda>_. True)"
  unfolding columns_obj_def by (rule frame_bnd [OF frame_get_frame frame_ret]) simp

lemma frame_groupby_sum: "frame n (groupby_sum_obj r keys c) (\<lambda>a. n \<le> a)"
  unfolding groupby_sum_obj_def
  by (rule frame_bnd [OF frame_get_frame frame_bnd [OF frame_liftE frame_alloc]])

lemma frame_groupby_agg: "frame n (groupby_agg_obj r keys ad) (\<lambda>a. n \<le> a)"
  unfolding groupby_agg_obj_def
  by (rule frame_bnd [OF frame_get_frame frame_bnd [OF frame_liftE frame_alloc]])

lemma frame_setitem: "n \<le> r \<Longrightarrow> frame n (setitem_obj r c v) (\<lambda>_. True)"
  by (simp add: frame_def setitem_obj_def split: obj.splits)

lemma frame_set_columns: "n \<le> r \<Longrightarrow> frame n (set_columns_obj r nc) (\<lambda>_. True)"
  by (simp add: frame_def set_columns_obj_def split: obj.splits sum.splits)

lemma frame_reset_index: "frame n (reset_index_obj r) (\<lambda>a. n \<le> a)"
proof -
  have "frame n (bnd (liftE (reset_index g)) (\<lambda>d. alloc (Frame d))) (\<lambda>a. n \<le> a)" for g
    by (rule frame_bnd [OF frame_liftE frame_alloc])
  then show ?thesis
    unfolding frame_def reset_index_obj_def by (auto split: obj.splits)
qed

lemma frame_routes:
  "frame n (routesToWeightedEdges_store self g country) (\<lambda>_. True)"
proof -
  have tail: "frame n (bnd (groupby_sum_obj a keys ''NumberOfRoutes'') (\<lambda>s.
                 bnd (reset_index_obj s) (\<lambda>r. ret (Some r)))) (\<lambda>_. True)" for a keys
    by (intro frame_bnd [OF frame_groupby_sum] frame_bnd [OF frame_reset_index] frame_ret) simp
  have flt: "frame n (case country of
            None \<Rightarrow> ret a
          | Some c \<Rightarrow>
              bnd (eq_mask_obj a ''DepartCountry/Region'' c) (\<lambda>m1.
              bnd (eq_mask_obj a ''ArrivalCountry/Region'' c) (\<lambda>m2.
                loc_obj a (and_mask m1 m2)))) (\<lambda>a. n \<le> a)" if "n \<le> a" for a
  proof (cases country)
    case None
    with that show ?thesis by (simp add: frame_ret)
  next
    case (Some c)
    then show ?thesis
      by (simp, intro frame_bnd [OF frame_eq_mask] frame_loc)
  qed
  show ?thesis
    unfolding routesToWeightedEdges_store_def
    apply (rule frame_bnd [OF frame_copy_deep])
    apply (rule frame_bnd [OF frame_fillna])
    apply (rule frame_bnd [OF flt], assumption)
    apply (rule frame_bnd [OF frame_setitem], assumption)
    apply (auto intro: tail frame_ret)
    done
qed

lemma frame_filter_country:
  "frame n (filter_country_store data c) (\<lambda>_. True)"
proof (induction data)
  case Nil
  then show ?case by (simp add: frame_ret)
next
  case (Cons a data)
  obtain nm df where a: "a = (nm, df)" by (cases a)
  show ?case
    unfolding a filter_country_store.simps
    by (intro frame_bnd [OF frame_eq_mask] frame_bnd [OF frame_loc] frame_bnd [OF Cons.IH]
        frame_ret) simp
qed

lemma frame_aggregate: "frame n (aggregate_store df keys ad nc) (\<lambda>_. True)"
  unfolding aggregate_store_def
  apply (rule frame_bnd [OF frame_groupby_agg])
  apply (rule frame_bnd [OF frame_set_columns], assumption)
  apply (rule frame_weaken [OF frame_reset_index])
  apply simp
  done

lemma frame_aggregate_all:
  "frame n (aggregate_all_store g ad nc data) (\<lambda>_. True)"
proof (induction data)
  case Nil
  then show ?case by (simp add: frame_ret)
next
  case (Cons a data)
  obtain nm df where a: "a = (nm, df)" by (cases a)
  have head: "frame n (if g = ''county'' then ret df
          else if g = ''state'' then
            aggregate_store df [''Province/State'', ''Country/Region''] ad nc
          else if g = ''country'' then
            aggregate_store df [''Country/Region''] ad nc
          else ret df) (\<lambda>_. True)"
    by (simp add: frame_ret frame_aggregate)
  show ?case
    unfolding a aggregate_all_store.simps
    by (intro frame_bnd [OF head] frame_bnd [OF Cons.IH] frame_ret) simp
qed

lemma frame_getData:
  "frame n (getData_store self g country sd) (\<lambda>_. True)"
proof (cases "g = ''county'' \<or> g = ''state'' \<or> g = ''country''")
  case False
  then show ?thesis by (simp add: getData_store_def frame_liftE)
next
  case True
  have rec: "frame n (if g = ''country'' then
               bnd (copy_deep (recovered_ref self)) (\<lambda>c3.
               bnd (fillna_obj c3 (Str ''none'')) (\<lambda>recovered.
                 ret (dict_set [(''confirmed'', confirmed), (''deaths'', deaths)]
                        ''recovered'' recovered)))
             else ret [(''confirmed'', confirmed), (''deaths'', deaths)]) (\<lambda>_. True)"
    for confirmed deaths
    by (auto intro!: frame_bnd [OF frame_copy_deep] frame_bnd [OF frame_fillna] frame_ret)
  have flt: "frame n (case country of None \<Rightarrow> ret data
                      | Some c \<Rightarrow> filter_country_store data c) (\<lambda>_. True)" for data
    by (cases country) (simp_all add: frame_ret frame_filter_country)
  have sel: "frame n (case p of (agg_dict, new_columns) \<Rightarrow>
        bnd (aggregate_all_store g agg_dict new_columns data) (\<lambda>data.
        bnd (routesToWeightedEdges_store self g country) (\<lambda>routes.
          ret (data, routes)))) (\<lambda>_. True)" for p data
    by (cases p)
      (auto intro!: frame_bnd [OF frame_aggregate_all] frame_bnd [OF frame_routes] frame_ret)
  show ?thesis
    unfolding getData_store_def using True
    apply simp
    apply (intro frame_bnd [OF frame_copy_deep] frame_bnd [OF frame_fillna] frame_bnd [OF rec]
        frame_bnd [OF flt] frame_bnd [OF frame_liftE] frame_bnd [OF frame_columns] sel)
    done
qed

lemma run_call_frame:
  "length s \<le> length (run_call self c s) \<and> take (length s) (run_call self c s) = s"
proof (cases c)
  case (CallRoutes g country)
  obtain r s' where run: "routesToWeightedEdges_store self g country s = (r, s')"
    by (cases "routesToWeightedEdges_store self g country s")
  from frameD(1,2) [OF frame_routes _ run, of "length s"] CallRoutes run
  show ?thesis by simp
next
  case (CallGetData g country sd)
  obtain r s' where run: "getData_store self g country sd s = (r, s')"
    by (cases "getData_store self g country sd s")
  from frameD(1,2) [OF frame_getData _ run, of "length s"] CallGetData run
  show ?thesis by simp
qed

lemma run_calls_frame:
  "length s \<le> length (run_calls self calls s) \<and> take (length s) (run_calls self calls s) = s"
proof (induction calls arbitrary: s)
  case Nil
  then show ?case by (simp add: run_calls_def)
next
  case (Cons c calls)
  let ?s1 = "run_call self c s"
  have 1: "length s \<le> length ?s1" "take (length s) ?s1 = s"
    using run_call_frame [of s self c] by simp_all
  have 2: "length ?s1 \<le> length (run_calls self calls ?s1)"
    "take (length ?s1) (run_calls self calls ?s1) = ?s1"
    using Cons.IH [of ?s1] by simp_all
  have "take (length s) (run_calls self calls ?s1)
        = take (length s) (take (length ?s1) (run_calls self calls ?s1))"
    using 1(1) by (simp add: min_def)
  also have "\<dots> = s" using 1(2) 2(2) by simp
  finally show ?case using 1 2 by (simp add: run_calls_def)
qed

lemma holds_append: "holds r x s \<Longrightarrow> holds r x (s @ objs)"
  by (simp add: holds_def nth_append)

lemma holds_new: "holds (length s) x (s @ [x])"
  by (simp add: holds_def)

lemma get_frame_run: "holds r (Frame d) s \<Longrightarrow> get_frame r s = (Inr d, s)"
  by (simp add: holds_def get_frame_def)

lemma copy_deep_run:
  "holds r (Frame d) s \<Longrightarrow> copy_deep r s = (Inr (length s), s @ [Frame d])"
  by (simp add: copy_deep_def bnd_def get_frame_run alloc_def)

lemma fillna_run:
  "holds r (Frame d) s \<Longrightarrow> fillna_obj r v s = (Inr (length s), s @ [Frame (fillna d v)])"
  by (simp add: fillna_obj_def bnd_def get_frame_run alloc_def)

lemma loc_run:
  "holds r (Frame d) s \<Longrightarrow> loc_obj r m s = (Inr (length s), s @ [Frame (loc d m)])"
  by (simp add: loc_obj_def bnd_def get_frame_run alloc_def)

lemma eq_mask_run: "holds r (Frame d) s \<Longrightarrow> eq_mask_obj r c v s = (eq_mask d c v, s)"
  by (simp add: eq_mask_obj_def bnd_def get_frame_run liftE_def)

lemma columns_run: "holds r (Frame d) s \<Longrightarrow> columns_obj r s = (Inr (columns d), s)"
  by (simp add: columns_obj_def bnd_def get_frame_run ret_def)

lemma setitem_run:
  "holds r (Frame d) s \<Longrightarrow> setitem_obj r c v s = (Inr (), s[r := Frame (setitem d c v)])"
  by (simp add: holds_def setitem_obj_def)

lemma groupby_sum_run:
  "holds r (Frame d) s \<Longrightarrow>
     groupby_sum_obj r keys c s =
       (case groupby_sum d keys c of
          Inl e \<Rightarrow> (Inl e, s)
        | Inr g \<Rightarrow> (Inr (length s), s @ [Indexed g]))"
  by (simp add: groupby_sum_obj_def bnd_def get_frame_run liftE_def alloc_def
      split: sum.splits)

lemma groupby_agg_run:
  "holds r (Frame d) s \<Longrightarrow>
     groupby_agg_obj r keys ad s =
       (case groupby_agg d keys ad of
          Inl e \<Rightarrow> (Inl e, s)
        | Inr g \<Rightarrow> (Inr (length s), s @ [Aggregated g]))"
  by (simp add: groupby_agg_obj_def bnd_def get_frame_run liftE_def alloc_def
      split: sum.splits)

lemma set_columns_run:
  "holds r (Aggregated g) s \<Longrightarrow>
     set_columns_obj r nc s =
       (case set_columns g nc of
          Inl e \<Rightarrow> (Inl e, s)
        | Inr g' \<Rightarrow> (Inr (), s[r := Indexed g']))"
  by (simp add: holds_def set_columns_obj_def)

lemma reset_index_run:
  "holds r (Indexed g) s \<Longrightarrow>
     reset_index_obj r s =
       (case reset_index g of
          Inl e \<Rightarrow> (Inl e, s)
        | Inr d \<Rightarrow> (Inr (length s), s @ [Frame d]))"
  by (simp add: holds_def reset_index_obj_def bnd_def liftE_def alloc_def split: sum.splits)

lemma aggregate_store_sim:
  assumes "holds df (Frame d) s"
  shows "sim s (aggregate_store df keys ad nc) (aggregate d keys ad nc) frame_at"
proof (cases "groupby_agg d keys ad")
  case (Inl e)
  then have "aggregate_store df keys ad nc s = (Inl e, s @ [])"
    by (simp add: aggregate_store_def bnd_def groupby_agg_run [OF assms])
  with Inl show ?thesis unfolding sim_def aggregate_def by (intro exI [of _ "[]"]) simp
next
  case (Inr g)
  let ?s1 = "s @ [Aggregated g]"
  have 1: "groupby_agg_obj df keys ad s = (Inr (length s), ?s1)"
    by (simp add: groupby_agg_run [OF assms] Inr)
  have h1: "holds (length s) (Aggregated g) ?s1" by (rule holds_new)
  show ?thesis
  proof (cases "set_columns g nc")
    case (Inl e)
    then have "aggregate_store df keys ad nc s = (Inl e, s @ [Aggregated g])"
      by (simp add: aggregate_store_def bnd_def 1 set_columns_run [OF h1])
    with Inl Inr show ?thesis unfolding sim_def aggregate_def
      by (intro exI [of _ "[Aggregated g]"]) simp
  next
    case g': (Inr g')
    let ?s2 = "s @ [Indexed g']"
    have 2: "set_columns_obj (length s) nc ?s1 = (Inr (), ?s2)"
      by (simp add: set_columns_run [OF h1] g')
    have h2: "holds (length s) (Indexed g') ?s2" by (rule holds_new)
    show ?thesis
    proof (cases "reset_index g'")
      case (Inl e)
      then have "aggregate_store df keys ad nc s = (Inl e, ?s2)"
        by (simp add: aggregate_store_def bnd_def 1 2 reset_index_run [OF h2])
      with Inl Inr g' show ?thesis unfolding sim_def aggregate_def
        by (intro exI [of _ "[Indexed g']"]) simp
    next
      case t: (Inr t)
      then have "aggregate_store df keys ad nc s = (Inr (Suc (length s)), s @ [Indexed g', Frame t])"
        by (simp add: aggregate_store_def bnd_def 1 2 reset_index_run [OF h2])
      with t Inr g' show ?thesis unfolding sim_def aggregate_def
        by (intro exI [of _ "[Indexed g', Frame t]"]) (simp add: holds_def nth_append)
    qed
  qed
qed

lemma simI_Inl: "m s = (Inl e, s @ objs) \<Longrightarrow> sim s m (Inl e) R"
  unfolding sim_def by (intro exI [of _ objs]) simp

lemma simI_Inr: "m s = (Inr x, s @ objs) \<Longrightarrow> R (s @ objs) x y \<Longrightarrow> sim s m (Inr y) R"
  unfolding sim_def by (intro exI [of _ objs]) auto

lemma sim_bnd:
  assumes m: "sim s m v R"
    and f: "\<And>objs x y. v = Inr y \<Longrightarrow> R (s @ objs) x y \<Longrightarrow> sim (s @ objs) (f x) (g y) Q"
  shows "sim s (bnd m f) (bindE v g) Q"
proof (cases v)
  case (Inl e)
  with m obtain objs where "m s = (Inl e, s @ objs)" by (auto simp: sim_def)
  then have "bnd m f s = (Inl e, s @ objs)" by (simp add: bnd_def)
  with Inl show ?thesis by (simp add: simI_Inl)
next
  case (Inr y)
  with m obtain objs x where run: "m s = (Inr x, s @ objs)" and R: "R (s @ objs) x y"
    by (auto simp: sim_def)
  from f [OF Inr R] obtain objs' where
    fx: "case g y of
           Inl e \<Rightarrow> f x (s @ objs) = (Inl e, (s @ objs) @ objs')
         | Inr z \<Rightarrow> (\<exists>w. f x (s @ objs) = (Inr w, (s @ objs) @ objs') \<and> Q ((s @ objs) @ objs') w z)"
    unfolding sim_def by blast
  have b: "bnd m f s = f x (s @ objs)" using run by (simp add: bnd_def)
  show ?thesis
    unfolding sim_def Inr bindE_Inr b
    using fx by (intro exI [of _ "objs @ objs'"]) (auto split: sum.splits)
qed

lemma sim_ret: "R s x y \<Longrightarrow> sim s (ret x) (Inr y) R"
  by (rule simI_Inr [where objs = "[]"]) (simp_all add: ret_def)

lemma sim_liftE: "(\<And>y. v = Inr y \<Longrightarrow> R s y y) \<Longrightarrow> sim s (liftE v) v R"
  unfolding sim_def liftE_def by (intro exI [of _ "[]"]) (auto split: sum.splits)

lemma dict_at_append: "dict_at s refs tables \<Longrightarrow> dict_at (s @ objs) refs tables"
  unfolding dict_at_def by (auto elim!: list_all2_mono intro: holds_append)

lemma dict_at_Nil [simp]: "dict_at s [] []"
  by (simp add: dict_at_def)

lemma dict_at_Cons [simp]:
  "dict_at s ((n, a) # refs) ((n', t) # tables)
     = (n = n' \<and> holds a (Frame t) s \<and> dict_at s refs tables)"
  by (simp add: dict_at_def)

lemma dict_at_cases:
  assumes "dict_at s refs tables"
  obtains "refs = []" "tables = []"
  | n a refs' t tables' where "refs = (n, a) # refs'" "tables = (n, t) # tables'"
      "holds a (Frame t) s" "dict_at s refs' tables'"
  using assms unfolding dict_at_def by (cases refs; cases tables) auto

lemma filter_country_sim:
  "dict_at s refs tables \<Longrightarrow>
     sim s (filter_country_store refs c) (filter_country tables c) dict_at"
proof (induction refs arbitrary: tables s)
  case Nil
  then have "tables = []" by (auto elim: dict_at_cases)
  then show ?case by (simp add: sim_ret)
next
  case (Cons p refs)
  from Cons.prems obtain n a t tables' where p: "p = (n, a)" and tb: "tables = (n, t) # tables'"
    and a: "holds a (Frame t) s" and rest: "dict_at s refs tables'"
    by (auto elim: dict_at_cases)
  have mask: "sim s (eq_mask_obj a ''Country/Region'' c) (eq_mask t ''Country/Region'' c)
                (\<lambda>s' x y. x = y \<and> s' = s)"
    unfolding sim_def eq_mask_run [OF a] by (intro exI [of _ "[]"]) (simp split: sum.splits)
  show ?case
    unfolding p tb filter_country_store.simps filter_country.simps
  proof (rule sim_bnd [OF mask], elim conjE, simp only:)
    fix m
    have l: "loc_obj a m s = (Inr (length s), s @ [Frame (loc t m)])" by (rule loc_run [OF a])
    have "sim s (bnd (loc_obj a m) (\<lambda>df'.
             bnd (filter_country_store refs c) (\<lambda>rest'. ret ((n, df') # rest'))))
           (bindE (Inr (loc t m)) (\<lambda>d'. bindE (filter_country tables' c) (\<lambda>rest'.
             Inr ((n, d') # rest')))) dict_at"
    proof (rule sim_bnd [where R = frame_at])
      show "sim s (loc_obj a m) (Inr (loc t m)) frame_at"
        by (rule simI_Inr [where objs = "[Frame (loc t m)]" and x = "length s"])
          (simp_all add: l holds_new)
    next
      fix objs x y
      assume x: "frame_at (s @ objs) x y"
      show "sim (s @ objs) (bnd (filter_country_store refs c) (\<lambda>rest'. ret ((n, x) # rest')))
              (bindE (filter_country tables' c) (\<lambda>rest'. Inr ((n, y) # rest'))) dict_at"
      proof (rule sim_bnd [OF Cons.IH [OF dict_at_append [OF rest]]])
        fix objs' refs' tables''
        assume "dict_at ((s @ objs) @ objs') refs' tables''"
        with holds_append [OF x, of objs']
        show "sim ((s @ objs) @ objs') (ret ((n, x) # refs')) (Inr ((n, y) # tables'')) dict_at"
          by (intro sim_ret) simp
      qed
    qed
    then show "sim s (bnd (loc_obj a m) (\<lambda>df'.
             bnd (filter_country_store refs c) (\<lambda>rest'. ret ((n, df') # rest'))))
           (bindE (filter_country tables' c) (\<lambda>rest'. Inr ((n, loc t m) # rest'))) dict_at"
      by simp
  qed
qed

lemma sim_after:
  assumes "m s = m' (s @ added)" and "sim (s @ added) m' v R"
  shows "sim s m v R"
proof (cases v)
  case (Inl e)
  with assms obtain objs where "m s = (Inl e, s @ (added @ objs))" by (auto simp: sim_def)
  with Inl show ?thesis by (simp only: simI_Inl)
next
  case (Inr y)
  with assms obtain objs x where "m s = (Inr x, s @ (added @ objs))" "R (s @ (added @ objs)) x y"
    by (auto simp: sim_def)
  with Inr show ?thesis by (simp only: simI_Inr)
qed

lemma aggregate_all_sim:
  "dict_at s refs tables \<Longrightarrow>
     sim s (aggregate_all_store g ad nc refs) (aggregate_all g ad nc tables) dict_at"
proof (induction refs arbitrary: tables s)
  case Nil
  then have "tables = []" by (auto elim: dict_at_cases)
  then show ?case by (simp add: sim_ret)
next
  case (Cons p refs)
  from Cons.prems obtain n a t tables' where p: "p = (n, a)" and tb: "tables = (n, t) # tables'"
    and a: "holds a (Frame t) s" and rest: "dict_at s refs tables'"
    by (auto elim: dict_at_cases)
  have head: "sim s (if g = ''county'' then ret a
          else if g = ''state'' then
            aggregate_store a [''Province/State'', ''Country/Region''] ad nc
          else if g = ''country'' then
            aggregate_store a [''Country/Region''] ad nc
          else ret a)
        (if g = ''county'' then Inr t
          else if g = ''state'' then
            aggregate t [''Province/State'', ''Country/Region''] ad nc
          else if g = ''country'' then
            aggregate t [''Country/Region''] ad nc
          else Inr t) frame_at"
    using a by (auto intro: sim_ret aggregate_store_sim)
  show ?case
    unfolding p tb aggregate_all_store.simps aggregate_all.simps
  proof (rule sim_bnd [OF head])
    fix objs x y
    assume x: "frame_at (s @ objs) x y"
    show "sim (s @ objs) (bnd (aggregate_all_store g ad nc refs) (\<lambda>rest'. ret ((n, x) # rest')))
            (bindE (aggregate_all g ad nc tables') (\<lambda>rest'. Inr ((n, y) # rest'))) dict_at"
    proof (rule sim_bnd [OF Cons.IH [OF dict_at_append [OF rest]]])
      fix objs' refs' tables''
      assume "dict_at ((s @ objs) @ objs') refs' tables''"
      with holds_append [OF x, of objs']
      show "sim ((s @ objs) @ objs') (ret ((n, x) # refs')) (Inr ((n, y) # tables'')) dict_at"
        by (intro sim_ret) simp
    qed
  qed
qed

lemma group_reset_sim:
  assumes a: "holds a (Frame new) s"
  shows "sim s (bnd (groupby_sum_obj a keys c) (\<lambda>g. bnd (reset_index_obj g) (\<lambda>r. ret (Some r))))
           (bindE (groupby_sum new keys c) (\<lambda>g. bindE (reset_index g) (\<lambda>r. Inr (Some r))))
           opt_at"
proof (cases "groupby_sum new keys c")
  case (Inl e)
  then have "bnd (groupby_sum_obj a keys c) (\<lambda>g. bnd (reset_index_obj g) (\<lambda>r. ret (Some r))) s
             = (Inl e, s @ [])"
    by (simp add: bnd_def groupby_sum_run [OF a])
  with Inl show ?thesis by (simp only: bindE_Inl simI_Inl)
next
  case (Inr g)
  have h: "holds (length s) (Indexed g) (s @ [Indexed g])" by (rule holds_new)
  show ?thesis
  proof (cases "reset_index g")
    case (Inl e)
    then have "bnd (groupby_sum_obj a keys c)
                 (\<lambda>g. bnd (reset_index_obj g) (\<lambda>r. ret (Some r))) s = (Inl e, s @ [Indexed g])"
      by (simp add: bnd_def groupby_sum_run [OF a] Inr reset_index_run [OF h])
    with Inl Inr show ?thesis by (simp only: bindE_Inl bindE_Inr simI_Inl)
  next
    case t: (Inr t)
    then have run: "bnd (groupby_sum_obj a keys c)
                 (\<lambda>g. bnd (reset_index_obj g) (\<lambda>r. ret (Some r))) s
               = (Inr (Some (Suc (length s))), s @ [Indexed g, Frame t])"
      by (simp add: bnd_def groupby_sum_run [OF a] Inr reset_index_run [OF h] ret_def)
    have "opt_at (s @ [Indexed g, Frame t]) (Some (Suc (length s))) (Some t)"
      by (simp add: opt_at_def holds_def nth_append)
    with run t Inr show ?thesis by (simp only: bindE_Inr simI_Inr)
  qed
qed

lemma routes_sim:
  assumes r: "holds (routes_ref self) (Frame (routes_df pself)) s"
  shows "sim s (routesToWeightedEdges_store self g country)
           (routesToWeightedEdges pself g country) opt_at"
proof -
  let ?d = "routes_df pself"
  let ?fd = "fillna ?d (Str ''none'')"
  define K where "K = (\<lambda>a.
     if g = ''county'' then
       bnd (groupby_sum_obj a
              [''DepartCounty'', ''DepartProvince/State'', ''DepartCountry/Region'',
               ''ArrivalCounty'', ''ArrivalProvince/State'', ''ArrivalCountry/Region'']
              ''NumberOfRoutes'') (\<lambda>s.
       bnd (reset_index_obj s) (\<lambda>r. ret (Some r)))
     else if g = ''state'' then
       bnd (groupby_sum_obj a
              [''DepartProvince/State'', ''DepartCountry/Region'',
               ''ArrivalProvince/State'', ''ArrivalCountry/Region'']
              ''NumberOfRoutes'') (\<lambda>s.
       bnd (reset_index_obj s) (\<lambda>r. ret (Some r)))
     else if g = ''country'' then
       bnd (groupby_sum_obj a
              [''DepartCountry/Region'', ''ArrivalCountry/Region'']
              ''NumberOfRoutes'') (\<lambda>s.
       bnd (reset_index_obj s) (\<lambda>r. ret (Some r)))
     else ret None)"
  define Kp where "Kp = (\<lambda>new.
      if g = ''county'' then
        bindE (groupby_sum new
                 [''DepartCounty'', ''DepartProvince/State'', ''DepartCountry/Region'',
                  ''ArrivalCounty'', ''ArrivalProvince/State'', ''ArrivalCountry/Region'']
                 ''NumberOfRoutes'') (\<lambda>s.
        bindE (reset_index s) (\<lambda>r. Inr (Some r)))
      else if g = ''state'' then
        bindE (groupby_sum new
                 [''DepartProvince/State'', ''DepartCountry/Region'',
                  ''ArrivalProvince/State'', ''ArrivalCountry/Region'']
                 ''NumberOfRoutes'') (\<lambda>s.
        bindE (reset_index s) (\<lambda>r. Inr (Some r)))
      else if g = ''country'' then
        bindE (groupby_sum new
                 [''DepartCountry/Region'', ''ArrivalCountry/Region'']
                 ''NumberOfRoutes'') (\<lambda>s.
        bindE (reset_index s) (\<lambda>r. Inr (Some r)))
      else Inr None)"
  have K_sim: "sim s' (K a) (Kp new) opt_at" if "holds a (Frame new) s'" for a new s'
    unfolding K_def Kp_def using that
    by (auto intro: group_reset_sim sim_ret simp: opt_at_def)
  have store_eq: "routesToWeightedEdges_store self g country =
     bnd (copy_deep (routes_ref self)) (\<lambda>copied.
     bnd (fillna_obj copied (Str ''none'')) (\<lambda>new_routes_df.
     bnd (case country of
            None \<Rightarrow> ret new_routes_df
          | Some c \<Rightarrow>
              bnd (eq_mask_obj new_routes_df ''DepartCountry/Region'' c) (\<lambda>m1.
              bnd (eq_mask_obj new_routes_df ''ArrivalCountry/Region'' c) (\<lambda>m2.
                loc_obj new_routes_df (and_mask m1 m2)))) (\<lambda>new_routes_df.
     bnd (setitem_obj new_routes_df ''NumberOfRoutes'' (Num 1)) (\<lambda>_. K new_routes_df))))"
    unfolding routesToWeightedEdges_store_def K_def by (rule refl)
  have pure_eq: "routesToWeightedEdges pself g country =
      bindE (case country of
               None \<Rightarrow> Inr ?fd
             | Some c \<Rightarrow>
                 bindE (eq_mask ?fd ''DepartCountry/Region'' c) (\<lambda>m1.
                 bindE (eq_mask ?fd ''ArrivalCountry/Region'' c) (\<lambda>m2.
                   Inr (loc ?fd (and_mask m1 m2)))))
        (\<lambda>sel. Kp (setitem sel ''NumberOfRoutes'' (Num 1)))"
    unfolding routesToWeightedEdges_def Kp_def Let_def by (rule refl)
  let ?s2 = "s @ [Frame ?d, Frame ?fd]"
  let ?a2 = "Suc (length s)"
  have c: "copy_deep (routes_ref self) s = (Inr (length s), s @ [Frame ?d])"
    by (rule copy_deep_run [OF r])
  have f: "fillna_obj (length s) (Str ''none'') (s @ [Frame ?d]) = (Inr ?a2, ?s2)"
    using fillna_run [OF holds_new, where s1 = s and d = "?d" and v = "Str ''none''"] by simp
  have h2: "holds ?a2 (Frame ?fd) ?s2" by (simp add: holds_def nth_append)
  text \<open>After the filter: the current frame is the last object of the store.\<close>
  have finish: "sim s (routesToWeightedEdges_store self g country)
                  (Kp (setitem sel ''NumberOfRoutes'' (Num 1))) opt_at"
    if run: "routesToWeightedEdges_store self g country s =
               bnd (setitem_obj a ''NumberOfRoutes'' (Num 1)) (\<lambda>_. K a) (s @ objs @ [Frame sel])"
      and a: "a = length s + length objs" for a objs sel
  proof -
    let ?new = "setitem sel ''NumberOfRoutes'' (Num 1)"
    have h: "holds a (Frame sel) (s @ objs @ [Frame sel])"
      by (simp add: holds_def a nth_append)
    have upd: "(s @ objs @ [Frame sel])[a := Frame ?new] = s @ (objs @ [Frame ?new])"
      by (simp add: a list_update_append)
    have run': "routesToWeightedEdges_store self g country s = K a (s @ (objs @ [Frame ?new]))"
      unfolding run by (simp add: bnd_def setitem_run [OF h] upd)
    have "holds a (Frame ?new) (s @ (objs @ [Frame ?new]))"
      by (simp add: holds_def a nth_append)
    from K_sim [OF this] show ?thesis
      by (rule sim_after [where m = "routesToWeightedEdges_store self g country" and s = s
            and m' = "K a" and added = "objs @ [Frame ?new]", OF run'])
  qed
  show ?thesis
  proof (cases country)
    case None
    have run: "routesToWeightedEdges_store self g country s =
            bnd (setitem_obj ?a2 ''NumberOfRoutes'' (Num 1)) (\<lambda>_. K ?a2) (s @ [Frame ?d] @ [Frame ?fd])"
      by (subst store_eq) (simp add: None bnd_def c f ret_def)
    have "sim s (routesToWeightedEdges_store self g country)
            (Kp (setitem ?fd ''NumberOfRoutes'' (Num 1))) opt_at"
      by (rule finish [OF run]) simp
    moreover have "routesToWeightedEdges pself g country = Kp (setitem ?fd ''NumberOfRoutes'' (Num 1))"
      by (subst pure_eq) (simp add: None)
    ultimately show ?thesis by (simp only:)
  next
    case (Some cn)
    show ?thesis
    proof (cases "eq_mask ?fd ''DepartCountry/Region'' cn")
      case (Inl e)
      have "routesToWeightedEdges_store self g country s = (Inl e, ?s2)"
        by (subst store_eq) (simp add: Some bnd_def c f eq_mask_run [OF h2] Inl)
      then have "sim s (routesToWeightedEdges_store self g country) (Inl e) opt_at"
        by (rule simI_Inl [where objs = "[Frame ?d, Frame ?fd]"])
      moreover have "routesToWeightedEdges pself g country = Inl e"
        by (subst pure_eq) (simp add: Some Inl)
      ultimately show ?thesis by (simp only:)
    next
      case m1: (Inr m1)
      show ?thesis
      proof (cases "eq_mask ?fd ''ArrivalCountry/Region'' cn")
        case (Inl e)
        have "routesToWeightedEdges_store self g country s = (Inl e, ?s2)"
          by (subst store_eq) (simp add: Some bnd_def c f eq_mask_run [OF h2] m1 Inl)
        then have "sim s (routesToWeightedEdges_store self g country) (Inl e) opt_at"
          by (rule simI_Inl [where objs = "[Frame ?d, Frame ?fd]"])
        moreover have "routesToWeightedEdges pself g country = Inl e"
          by (subst pure_eq) (simp add: Some m1 Inl)
        ultimately show ?thesis by (simp only:)
      next
        case m2: (Inr m2)
        let ?sel = "loc ?fd (and_mask m1 m2)"
        have run: "routesToWeightedEdges_store self g country s =
            bnd (setitem_obj (Suc ?a2) ''NumberOfRoutes'' (Num 1)) (\<lambda>_. K (Suc ?a2))
              (s @ [Frame ?d, Frame ?fd] @ [Frame ?sel])"
          by (subst store_eq)
            (simp add: Some bnd_def c f eq_mask_run [OF h2] m1 m2 loc_run [OF h2])
        have "sim s (routesToWeightedEdges_store self g country)
                (Kp (setitem ?sel ''NumberOfRoutes'' (Num 1))) opt_at"
          by (rule finish [OF run]) simp
        moreover have "routesToWeightedEdges pself g country
                         = Kp (setitem ?sel ''NumberOfRoutes'' (Num 1))"
          by (subst pure_eq) (simp add: Some m1 m2)
        ultimately show ?thesis by (simp only:)
      qed
    qed
  qed
qed

lemma dict_get_sim:
  "dict_at s refs tables \<Longrightarrow> sim s (liftE (dict_get refs k)) (dict_get tables k) frame_at"
proof (induction refs arbitrary: tables)
  case Nil
  then have "tables = []" by (auto elim: dict_at_cases)
  then show ?case by (simp add: simI_Inl [where objs = "[]"] liftE_def)
next
  case (Cons p refs)
  from Cons.prems obtain n a t tables' where p: "p = (n, a)" and tb: "tables = (n, t) # tables'"
    and a: "holds a (Frame t) s" and rest: "dict_at s refs tables'"
    by (auto elim: dict_at_cases)
  show ?case
  proof (cases "n = k")
    case True
    then show ?thesis unfolding p tb using a
      by (simp add: simI_Inr [where objs = "[]"] liftE_def)
  next
    case False
    with Cons.IH [OF rest] show ?thesis unfolding p tb by simp
  qed
qed

lemma bnd_columns:
  "holds a (Frame t) s \<Longrightarrow> bnd (columns_obj a) F s = F (columns t) (s @ [])"
  by (simp add: bnd_def columns_run)

lemma getData_rest_sim:
  assumes d: "dict_at s refs tables"
    and r: "holds (routes_ref self) (Frame (routes_df pself)) s"
  shows "sim s
     (bnd (case country of None \<Rightarrow> ret refs | Some c \<Rightarrow> filter_country_store refs c) (\<lambda>data.
      bnd (liftE (dict_get data ''confirmed'')) (\<lambda>confirmed.
      bnd (columns_obj confirmed) (\<lambda>cols.
      bnd (liftE (select_dates (drop 5 cols) sd)) (\<lambda>(agg_dict, new_columns).
      bnd (aggregate_all_store g agg_dict new_columns data) (\<lambda>data.
      bnd (routesToWeightedEdges_store self g country) (\<lambda>routes.
        ret (data, routes))))))))
     (bindE (case country of None \<Rightarrow> Inr tables | Some c \<Rightarrow> filter_country tables c) (\<lambda>data.
      bindE (dict_get data ''confirmed'') (\<lambda>confirmed.
      bindE (select_dates (drop 5 (columns confirmed)) sd) (\<lambda>(agg_dict, new_columns).
      bindE (aggregate_all g agg_dict new_columns data) (\<lambda>data.
      bindE (routesToWeightedEdges pself g country) (\<lambda>routes.
        Inr (data, routes)))))))
     result_at"
proof (rule sim_bnd [where R = dict_at])
  show "sim s (case country of None \<Rightarrow> ret refs | Some c \<Rightarrow> filter_country_store refs c)
          (case country of None \<Rightarrow> Inr tables | Some c \<Rightarrow> filter_country tables c) dict_at"
    using d by (cases country) (simp_all add: sim_ret filter_country_sim)
next
  fix o1 refs1 tables1
  assume d1: "dict_at (s @ o1) refs1 tables1"
  let ?s1 = "s @ o1"
  have r1: "holds (routes_ref self) (Frame (routes_df pself)) ?s1" by (rule holds_append [OF r])
  show "sim ?s1
     (bnd (liftE (dict_get refs1 ''confirmed'')) (\<lambda>confirmed.
      bnd (columns_obj confirmed) (\<lambda>cols.
      bnd (liftE (select_dates (drop 5 cols) sd)) (\<lambda>(agg_dict, new_columns).
      bnd (aggregate_all_store g agg_dict new_columns refs1) (\<lambda>data.
      bnd (routesToWeightedEdges_store self g country) (\<lambda>routes.
        ret (data, routes)))))))
     (bindE (dict_get tables1 ''confirmed'') (\<lambda>confirmed.
      bindE (select_dates (drop 5 (columns confirmed)) sd) (\<lambda>(agg_dict, new_columns).
      bindE (aggregate_all g agg_dict new_columns tables1) (\<lambda>data.
      bindE (routesToWeightedEdges pself g country) (\<lambda>routes.
        Inr (data, routes))))))
     result_at"
  proof (rule sim_bnd [OF dict_get_sim [OF d1]])
    fix o2 a t
    assume a: "frame_at (?s1 @ o2) a t"
    let ?s2 = "?s1 @ o2"
    have d2: "dict_at ?s2 refs1 tables1" by (rule dict_at_append [OF d1])
    have r2: "holds (routes_ref self) (Frame (routes_df pself)) ?s2" by (rule holds_append [OF r1])
    let ?F = "\<lambda>cols.
      bnd (liftE (select_dates (drop 5 cols) sd)) (\<lambda>(agg_dict, new_columns).
      bnd (aggregate_all_store g agg_dict new_columns refs1) (\<lambda>data.
      bnd (routesToWeightedEdges_store self g country) (\<lambda>routes.
        ret (data, routes))))"
    have "sim (?s2 @ []) (?F (columns t))
       (bindE (select_dates (drop 5 (columns t)) sd) (\<lambda>(agg_dict, new_columns).
        bindE (aggregate_all g agg_dict new_columns tables1) (\<lambda>data.
        bindE (routesToWeightedEdges pself g country) (\<lambda>routes.
          Inr (data, routes)))))
       result_at"
    proof (rule sim_bnd [where R = "\<lambda>s x y. x = y"])
      show "sim (?s2 @ []) (liftE (select_dates (drop 5 (columns t)) sd))
              (select_dates (drop 5 (columns t)) sd) (\<lambda>s x y. x = y)"
        by (rule sim_liftE) simp
    next
      fix o3 and p q :: "(string \<times> aggfun) list \<times> string list"
      assume "p = q"
      let ?s3 = "(?s2 @ []) @ o3"
      obtain ad nc where q: "q = (ad, nc)" by (cases q)
      have d3: "dict_at ?s3 refs1 tables1" using dict_at_append [OF d2, of o3] by simp
      have r3: "holds (routes_ref self) (Frame (routes_df pself)) ?s3"
        using holds_append [OF r2, of o3] by simp
      have "sim ?s3
         (bnd (aggregate_all_store g ad nc refs1) (\<lambda>data.
          bnd (routesToWeightedEdges_store self g country) (\<lambda>routes. ret (data, routes))))
         (bindE (aggregate_all g ad nc tables1) (\<lambda>data.
          bindE (routesToWeightedEdges pself g country) (\<lambda>routes. Inr (data, routes))))
         result_at"
      proof (rule sim_bnd [OF aggregate_all_sim [OF d3]])
        fix o4 refs4 tables4
        assume d4: "dict_at (?s3 @ o4) refs4 tables4"
        have r4: "holds (routes_ref self) (Frame (routes_df pself)) (?s3 @ o4)"
          by (rule holds_append [OF r3])
        show "sim (?s3 @ o4)
           (bnd (routesToWeightedEdges_store self g country) (\<lambda>routes. ret (refs4, routes)))
           (bindE (routesToWeightedEdges pself g country) (\<lambda>routes. Inr (tables4, routes)))
           result_at"
        proof (rule sim_bnd [OF routes_sim [OF r4]])
          fix o5 x y
          assume "opt_at ((?s3 @ o4) @ o5) x y"
          with dict_at_append [OF d4, of o5]
          show "sim ((?s3 @ o4) @ o5) (ret (refs4, x)) (Inr (tables4, y)) result_at"
            by (intro sim_ret) (simp add: result_at_def)
        qed
      qed
      then show "sim ?s3 (case p of (agg_dict, new_columns) \<Rightarrow>
          bnd (aggregate_all_store g agg_dict new_columns refs1) (\<lambda>data.
          bnd (routesToWeightedEdges_store self g country) (\<lambda>routes. ret (data, routes))))
         (case q of (agg_dict, new_columns) \<Rightarrow>
          bindE (aggregate_all g agg_dict new_columns tables1) (\<lambda>data.
          bindE (routesToWeightedEdges pself g country) (\<lambda>routes. Inr (data, routes))))
         result_at"
        using \<open>p = q\<close> q by simp
    qed
    then show "sim ?s2 (bnd (columns_obj a) ?F)
       (bindE (select_dates (drop 5 (columns t)) sd) (\<lambda>(agg_dict, new_columns).
        bindE (aggregate_all g agg_dict new_columns tables1) (\<lambda>data.
        bindE (routesToWeightedEdges pself g country) (\<lambda>routes.
          Inr (data, routes)))))
       result_at"
      by (rule sim_after [where m = "bnd (columns_obj a) ?F" and s = ?s2 and m' = "?F (columns t)"
            and added = "[]", OF bnd_columns [OF a]])
  qed
qed

lemma getData_sim:
  assumes c: "holds (confirmed_ref self) (Frame (confirmed_df pself)) s"
    and d: "holds (deaths_ref self) (Frame (deaths_df pself)) s"
    and rc: "holds (recovered_ref self) (Frame (recovered_df pself)) s"
    and r: "holds (routes_ref self) (Frame (routes_df pself)) s"
  shows "sim s (getData_store self g country sd) (getData pself g country sd) result_at"
proof (cases "g = ''county'' \<or> g = ''state'' \<or> g = ''country''")
  case False
  then have "getData_store self g country sd s = (Inl (AssertionError
        ''Invalid region parsed to bin_region_column! Needs to be county, state or country''), s @ [])"
    by (simp add: getData_store_def liftE_def)
  moreover from False have "getData pself g country sd = Inl (AssertionError
        ''Invalid region parsed to bin_region_column! Needs to be county, state or country'')"
    by (simp add: getData_def)
  ultimately show ?thesis by (simp only: simI_Inl)
next
  case True
  let ?v = "Str ''none''"
  let ?c = "confirmed_df pself" and ?d = "deaths_df pself" and ?r = "recovered_df pself"
  let ?n = "length s"
  define Rest where "Rest = (\<lambda>refs.
      bnd (case country of None \<Rightarrow> ret refs | Some c \<Rightarrow> filter_country_store refs c) (\<lambda>data.
      bnd (liftE (dict_get data ''confirmed'')) (\<lambda>confirmed.
      bnd (columns_obj confirmed) (\<lambda>cols.
      bnd (liftE (select_dates (drop 5 cols) sd)) (\<lambda>(agg_dict, new_columns).
      bnd (aggregate_all_store g agg_dict new_columns data) (\<lambda>data.
      bnd (routesToWeightedEdges_store self g country) (\<lambda>routes.
        ret (data, routes))))))))"
  have store_eq: "getData_store self g country sd =
        bnd (copy_deep (confirmed_ref self)) (\<lambda>c1.
        bnd (fillna_obj c1 ?v) (\<lambda>confirmed.
        bnd (copy_deep (deaths_ref self)) (\<lambda>c2.
        bnd (fillna_obj c2 ?v) (\<lambda>deaths.
        bnd (if g = ''country'' then
               bnd (copy_deep (recovered_ref self)) (\<lambda>c3.
               bnd (fillna_obj c3 ?v) (\<lambda>recovered.
                 ret (dict_set [(''confirmed'', confirmed), (''deaths'', deaths)]
                        ''recovered'' recovered)))
             else ret [(''confirmed'', confirmed), (''deaths'', deaths)]) Rest))))"
    using True unfolding getData_store_def Rest_def by simp
  let ?s1 = "s @ [Frame ?c]"
  let ?s2 = "s @ [Frame ?c, Frame (fillna ?c ?v)]"
  let ?s3 = "s @ [Frame ?c, Frame (fillna ?c ?v), Frame ?d]"
  let ?o4 = "[Frame ?c, Frame (fillna ?c ?v), Frame ?d, Frame (fillna ?d ?v)]"
  let ?s4 = "s @ ?o4"
  let ?s5 = "s @ [Frame ?c, Frame (fillna ?c ?v), Frame ?d, Frame (fillna ?d ?v), Frame ?r]"
  let ?o6 = "[Frame ?c, Frame (fillna ?c ?v), Frame ?d, Frame (fillna ?d ?v), Frame ?r,
              Frame (fillna ?r ?v)]"
  let ?s6 = "s @ ?o6"
  have e1: "copy_deep (confirmed_ref self) s = (Inr ?n, ?s1)"
    by (rule copy_deep_run [OF c])
  have e2: "fillna_obj ?n ?v ?s1 = (Inr (Suc (?n)), ?s2)"
    using fillna_run [where r = ?n and d = ?c and s = ?s1 and v = ?v]
    by (simp add: holds_def)
  have e3: "copy_deep (deaths_ref self) ?s2 = (Inr (Suc (Suc (?n))), ?s3)"
    using copy_deep_run [OF holds_append [OF d, of "[Frame ?c, Frame (fillna ?c ?v)]"]]
    by simp
  have e4: "fillna_obj (Suc (Suc (?n))) ?v ?s3 = (Inr (Suc (Suc (Suc (?n)))), ?s4)"
    using fillna_run [where r = "Suc (Suc (?n))" and d = ?d and s = ?s3 and v = ?v]
    by (simp add: holds_def nth_append)
  have e5: "copy_deep (recovered_ref self) ?s4 = (Inr (Suc (Suc (Suc (Suc (?n))))), ?s5)"
    using copy_deep_run [OF holds_append [OF rc, of ?o4]] by simp
  have e6: "fillna_obj (Suc (Suc (Suc (Suc (?n))))) ?v ?s5 = (Inr (Suc (Suc (Suc (Suc (Suc (?n)))))), ?s6)"
    using fillna_run [where r = "Suc (Suc (Suc (Suc (?n))))" and d = ?r and s = ?s5 and v = ?v]
    by (simp add: holds_def nth_append)
  have pure_eq: "getData pself g country sd =
      (bindE (case country of None \<Rightarrow> Inr (filled_tables pself g)
               | Some c \<Rightarrow> filter_country (filled_tables pself g) c) (\<lambda>data.
        bindE (dict_get data ''confirmed'') (\<lambda>confirmed.
        bindE (select_dates (drop 5 (columns confirmed)) sd) (\<lambda>(agg_dict, new_columns).
        bindE (aggregate_all g agg_dict new_columns data) (\<lambda>data.
        bindE (routesToWeightedEdges pself g country) (\<lambda>routes.
          Inr (data, routes)))))))"
    using True by (simp add: getData_unfold)
  show ?thesis
  proof (cases "g = ''country''")
    case False
    let ?refs = "[(''confirmed'', Suc (?n)), (''deaths'', Suc (Suc (Suc (?n))))]"
    have run: "getData_store self g country sd s = Rest ?refs ?s4"
      by (subst store_eq) (simp add: False bnd_def e1 e2 e3 e4 ret_def)
    have dict: "dict_at ?s4 ?refs (filled_tables pself g)"
      using False by (simp add: filled_tables_def holds_def nth_append)
    have "sim ?s4 (Rest ?refs) (getData pself g country sd) result_at"
      unfolding pure_eq Rest_def
      by (rule getData_rest_sim [OF dict holds_append [OF r]])
    then show ?thesis
      by (rule sim_after [where m = "getData_store self g country sd" and s = s
            and m' = "Rest ?refs" and added = ?o4, OF run])
  next
    case country: True
    let ?refs = "[(''confirmed'', Suc (?n)), (''deaths'', Suc (Suc (Suc (?n)))), (''recovered'', Suc (Suc (Suc (Suc (Suc (?n))))))]"
    have run: "getData_store self g country sd s = Rest ?refs ?s6"
      by (subst store_eq) (simp add: country bnd_def e1 e2 e3 e4 e5 e6 ret_def)
    have dict: "dict_at ?s6 ?refs (filled_tables pself g)"
      using country by (simp add: filled_tables_def holds_def nth_append)
    have "sim ?s6 (Rest ?refs) (getData pself g country sd) result_at"
      unfolding pure_eq Rest_def
      by (rule getData_rest_sim [OF dict holds_append [OF r]])
    then show ?thesis
      by (rule sim_after [where m = "getData_store self g country sd" and s = s
            and m' = "Rest ?refs" and added = ?o6, OF run])
  qed
qed

lemma example_run_length:
  "length (run_calls example_refs example_calls example_store) = 25"
  by code_simp

section \<open>Claims\<close>

text \<open>
  C1. On a well-formed route table that has the grouping columns, at each of the three
  granularities and with or without a country, \<^verbatim>\<open>routesToWeightedEdges\<close> returns a
  table, and the sum of its \<^verbatim>\<open>NumberOfRoutes\<close> column is the number of rows of the route
  table after the country filter: every route counts once.
\<close>

theorem C1_route_count_conserved:
  assumes "wf_df (routes_df self)"
    and "set (route_keys bin_region_column) \<subseteq> set (columns (routes_df self))"
    and "bin_region_column = ''county'' \<or> bin_region_column = ''state''
         \<or> bin_region_column = ''country''"
  shows "\<exists>t. routesToWeightedEdges self bin_region_column country = Inr (Some t)
           \<and> bindE (getitem t ''NumberOfRoutes'') (agg_apply AggSum)
               = Inr (Num (real (length (rows (selected_routes self country)))))"
  using routes_result [OF assms] by blast

theorem C1_route_count_conserved_witness:
  "wf_df (routes_df example_self)
   \<and> set (route_keys ''country'') \<subseteq> set (columns (routes_df example_self))
   \<and> length (rows (selected_routes example_self (Some ''US''))) = 2
   \<and> (\<exists>t. routesToWeightedEdges example_self ''country'' (Some ''US'') = Inr (Some t)
           \<and> bindE (getitem t ''NumberOfRoutes'') (agg_apply AggSum) = Inr (Num 2))"
proof -
  have wf: "wf_df (routes_df example_self)"
    by (simp add: example_self_def example_routes_wf)
  have cols: "set (route_keys ''country'') \<subseteq> set (columns (routes_df example_self))"
    by (simp add: route_keys_def example_self_def example_routes_def)
  have n: "length (rows (selected_routes example_self (Some ''US''))) = 2"
    by (simp add: selected_routes_def restrict_country_def fillna_def example_self_def
        example_routes_def)
  from C1_route_count_conserved [OF wf cols, of "Some ''US''"] n wf cols
  show ?thesis by simp
qed

text \<open>
  C2 (the half on \<^verbatim>\<open>routesToWeightedEdges\<close>). Called with a granularity that is none of
  \<^verbatim>\<open>'county'\<close>, \<^verbatim>\<open>'state'\<close>, \<^verbatim>\<open>'country'\<close>, here \<^verbatim>\<open>'city'\<close>, the method raises nothing: it
  returns Python's \<^verbatim>\<open>None\<close>. \<^verbatim>\<open>getData\<close> rejects the same argument with its assertion.
\<close>

theorem C2_routes_unknown_granularity_returns_None:
  "routesToWeightedEdges example_self ''city'' None = Inr None"
  by (simp add: routesToWeightedEdges_def)

text \<open>
  C3. At each of the three granularities, when the country filter (if any) can be applied,
  a \<^verbatim>\<open>specific_date\<close> that is not \<^verbatim>\<open>'latest'\<close> and is not among the date columns
  (the columns of the confirmed table from the sixth on) makes \<^verbatim>\<open>getData\<close> fail with
  an assertion error whose message starts with that date.
\<close>

theorem C3_unknown_date_rejected:
  assumes "g = ''county'' \<or> g = ''state'' \<or> g = ''country''"
    and "country \<noteq> None \<longrightarrow>
           list_all (\<lambda>(n, d). ''Country/Region'' \<in> set (columns d)) (source_tables self g)"
    and "sd \<noteq> ''latest''"
    and "sd \<notin> set (drop 5 (columns (confirmed_df self)))"
  shows "getData self g country (Some sd) =
           Inl (AssertionError (sd @
             '' is not a valid date. Check the covid .csv files for what a valid dates look like!''))"
proof -
  have "select_dates (drop 5 (columns (confirmed_df self))) (Some sd) =
          Inl (AssertionError (sd @
             '' is not a valid date. Check the covid .csv files for what a valid dates look like!''))"
    using assms(3,4) by (simp add: select_dates_def)
  then show ?thesis
    unfolding getData_unfold filter_step_total [OF assms(2)]
    using assms(1) by (simp add: dict_get_confirmed)
qed

theorem C3_unknown_date_rejected_witness:
  "(''county'' = ''county'' \<or> ''county'' = ''state'' \<or> ''county'' = ''country'')
   \<and> list_all (\<lambda>(n, d). ''Country/Region'' \<in> set (columns d))
         (source_tables example_self ''county'')
   \<and> ''2020-13-40'' \<noteq> ''latest''
   \<and> ''2020-13-40'' \<notin> set (drop 5 (columns (confirmed_df example_self)))
   \<and> getData example_self ''county'' (Some ''Z'') (Some ''2020-13-40'') =
       Inl (AssertionError
         ''2020-13-40 is not a valid date. Check the covid .csv files for what a valid dates look like!'')"
proof -
  have h1: "''county'' = ''county'' \<or> ''county'' = ''state'' \<or> ''county'' = ''country''"
    by simp
  have h2: "Some ''Z'' \<noteq> None \<longrightarrow>
        list_all (\<lambda>(n, d). ''Country/Region'' \<in> set (columns d))
          (source_tables example_self ''county'')"
    by (simp add: source_tables_def example_self_def example_cases_def)
  have h3: "''2020-13-40'' \<noteq> ''latest''" by simp
  have h4: "''2020-13-40'' \<notin> set (drop 5 (columns (confirmed_df example_self)))"
    by (simp add: example_self_def example_cases_def)
  from C3_unknown_date_rejected [OF h1 h2 h3 h4] h1 h2 h3 h4 show ?thesis by simp
qed

text \<open>
  C4, as the claim states it, fails: at county granularity the tables returned are not
  the stored tables when these have missing cells, since \<^verbatim>\<open>fillna("none")\<close> has replaced
  them.
\<close>

theorem C4_county_not_identical_to_input:
  "map_sum id fst (getData example_self ''county'' None None) \<noteq>
     Inr [(''confirmed'', confirmed_df example_self), (''deaths'', deaths_df example_self)]"
  unfolding example_county
  by (simp add: example_self_def example_cases_def example_county_tables_def
      example_filled_cases_def)

text \<open>
  C4, amended. At county granularity, whenever \<^verbatim>\<open>getData\<close> returns, its dictionary
  holds the confirmed and the deaths table, each equal to the stored table with missing
  cells replaced by \<^verbatim>\<open>"none"\<close> and restricted to the country if one is given: no
  grouping, no relabelling, no selection of dates.
\<close>

theorem C4_county_returns_filled_filtered_tables:
  assumes "getData self ''county'' country sd = Inr (data, routes)"
  shows "data = [(''confirmed'', selected_cases (confirmed_df self) country),
                 (''deaths'', selected_cases (deaths_df self) country)]"
proof -
  from getData_Inr(2) [OF assms] obtain ad nc where
    "aggregate_all ''county'' ad nc
       (map (\<lambda>(n, d). (n, selected_cases d country)) (source_tables self ''county'')) = Inr data"
    by blast
  then show ?thesis by (auto simp: source_tables_def bindE_eq_Inr)
qed

theorem C4_county_returns_filled_filtered_tables_witness:
  "getData example_self ''county'' None None =
     Inr (example_county_tables, Some example_county_routes)
   \<and> example_county_tables =
      [(''confirmed'', selected_cases (confirmed_df example_self) None),
       (''deaths'', selected_cases (deaths_df example_self) None)]"
  by (rule conjI [OF example_county C4_county_returns_filled_filtered_tables [OF example_county]])

text \<open>
  C5. On a well-formed route table, at each of the three granularities, with \<open>i\<close> and \<open>j\<close>
  the positions of the departure and the arrival country and \<open>ks\<close> those of the grouping
  columns: with a country \<open>c\<close>, \<^verbatim>\<open>routesToWeightedEdges\<close> returns the table that has one row
  for each key found among the rows whose departure country and arrival country (missing
  values read as \<^verbatim>\<open>"none"\<close>) both equal \<open>c\<close>, in the order of the keys, and in it the number
  of those rows that have the key. A row that fails either test gives no key and is
  counted nowhere.
\<close>

theorem C5_country_filter_on_both_endpoints:
  assumes wf: "wf_df (routes_df self)"
    and g: "g = ''county'' \<or> g = ''state'' \<or> g = ''country''"
    and i: "get_loc (columns (routes_df self)) ''DepartCountry/Region'' = Some i"
    and j: "get_loc (columns (routes_df self)) ''ArrivalCountry/Region'' = Some j"
    and ks: "get_locs (columns (routes_df self)) (route_keys g) = Inr ks"
  shows "routesToWeightedEdges self g (Some c) =
           (let kept = filter (\<lambda>r. r ! i = Str c \<and> r ! j = Str c)
                         (rows (fillna (routes_df self) (Str ''none'')))
            in Inr (Some \<lparr>columns = route_keys g @ [''NumberOfRoutes''],
                          rows = map (\<lambda>k. k @ [Num (real (length (filter (\<lambda>r. key_of ks r = k) kept)))])
                                   (group_keys ks kept)\<rparr>))"
proof -
  let ?d = "fillna (routes_df self) (Str ''none'')"
  let ?kept = "filter (\<lambda>r. r ! i = Str c \<and> r ! j = Str c) (rows ?d)"
  let ?sel = "selected_routes self (Some c)"
  let ?new = "setitem ?sel ''NumberOfRoutes'' (Num 1)"
  have cc: "set [''DepartCountry/Region'', ''ArrivalCountry/Region'']
              \<subseteq> set (columns (routes_df self))"
    using i j get_loc_None [of "columns (routes_df self)" "''DepartCountry/Region''"]
      get_loc_None [of "columns (routes_df self)" "''ArrivalCountry/Region''"] by simp
  have cols: "set (route_keys g) \<subseteq> set (columns (routes_df self))"
    by (rule get_locs_cols [OF ks])
  have sel_cols: "columns ?sel = columns (routes_df self)"
    by (simp add: selected_routes_def)
  have sel_rows: "rows ?sel = ?kept"
    using i j by (simp add: selected_routes_def restrict_country_def)
  have wfs: "wf_df ?sel"
    using wf by (simp add: selected_routes_def wf_restrict)
  have nn: "\<forall>r\<in>set (rows ?sel). NaN \<notin> set r"
    using set_rows_restrict fillna_no_NaN [of "Str ''none''" _ "routes_df self"]
    unfolding selected_routes_def by blast
  from setitem_props [OF wfs, where c = "''NumberOfRoutes''" and v = "Num 1"]
  obtain p where new: "wf_df ?new"
      "get_loc (columns ?new) ''NumberOfRoutes'' = Some p"
      "\<And>r. r \<in> set (rows ?new) \<Longrightarrow> r ! p = Num 1"
      "\<And>r. r \<in> set (rows ?new) \<Longrightarrow> NaN \<notin> set r"
    using nn by auto
  have notkey: "''NumberOfRoutes'' \<notin> set (route_keys g)"
    by (simp add: route_keys_def)
  have ks_sel: "get_locs (columns ?sel) (route_keys g) = Inr ks"
    using ks by (simp add: sel_cols)
  have ks_new: "get_locs (columns ?new) (route_keys g) = Inr ks"
    using get_locs_setitem [of "route_keys g" ?sel] cols ks_sel by (simp add: sel_cols)
  have keys_eq: "map (key_of ks) (rows ?new) = map (key_of ks) ?kept"
    using key_of_setitem [OF wfs ks_sel notkey] by (simp add: sel_rows)
  have "bindE (groupby_sum ?new (route_keys g) ''NumberOfRoutes'') reset_index =
          Inr \<lparr>columns = route_keys g @ [''NumberOfRoutes''],
               rows = map (\<lambda>k. k @ [Num (real (length (members ks (rows ?new) k)))])
                        (group_keys ks (rows ?new))\<rparr>"
    by (rule count_groups_rows [OF new(1) ks_new new(2) notkey new(3) new(4)])
  also have "group_keys ks (rows ?new) = group_keys ks ?kept"
    by (rule group_keys_cong [OF keys_eq])
  also have "(\<lambda>k. k @ [Num (real (length (members ks (rows ?new) k)))]) =
             (\<lambda>k. k @ [Num (real (length (filter (\<lambda>r. key_of ks r = k) ?kept)))])"
    using length_members_cong [OF keys_eq] by (simp add: members_def)
  finally show ?thesis
    unfolding routes_unfold [OF cc g] Let_def by simp
qed

theorem C5_country_filter_on_both_endpoints_witness:
  "wf_df (routes_df example_mixed_self)
   \<and> get_loc (columns (routes_df example_mixed_self)) ''DepartCountry/Region'' = Some 2
   \<and> get_loc (columns (routes_df example_mixed_self)) ''ArrivalCountry/Region'' = Some 5
   \<and> get_locs (columns (routes_df example_mixed_self)) (route_keys ''country'') = Inr [2, 5]
   \<and> filter (\<lambda>r. r ! 2 = Str ''US'' \<and> r ! 5 = Str ''US'')
        (rows (fillna (routes_df example_mixed_self) (Str ''none''))) =
       [[Str ''A'', Str ''none'', Str ''US'', Str ''B'', Str ''none'', Str ''US''],
        [Str ''E'', Str ''none'', Str ''US'', Str ''B'', Str ''none'', Str ''US'']]
   \<and> routesToWeightedEdges example_mixed_self ''country'' (Some ''US'') =
       Inr (Some \<lparr>columns = [''DepartCountry/Region'', ''ArrivalCountry/Region'',
                              ''NumberOfRoutes''],
                  rows = [[Str ''US'', Str ''US'', Num 2]]\<rparr>)"
proof -
  have wf: "wf_df (routes_df example_mixed_self)"
    by code_simp
  have g: "''country'' = ''county'' \<or> ''country'' = ''state'' \<or> ''country'' = ''country''"
    by simp
  have i: "get_loc (columns (routes_df example_mixed_self)) ''DepartCountry/Region'' = Some 2"
    by code_simp
  have j: "get_loc (columns (routes_df example_mixed_self)) ''ArrivalCountry/Region'' = Some 5"
    by code_simp
  have ks: "get_locs (columns (routes_df example_mixed_self)) (route_keys ''country'') = Inr [2, 5]"
    by code_simp
  have kept: "filter (\<lambda>r. r ! 2 = Str ''US'' \<and> r ! 5 = Str ''US'')
        (rows (fillna (routes_df example_mixed_self) (Str ''none''))) =
       [[Str ''A'', Str ''none'', Str ''US'', Str ''B'', Str ''none'', Str ''US''],
        [Str ''E'', Str ''none'', Str ''US'', Str ''B'', Str ''none'', Str ''US'']]"
    by code_simp
  have res: "routesToWeightedEdges example_mixed_self ''country'' (Some ''US'') =
       Inr (Some \<lparr>columns = [''DepartCountry/Region'', ''ArrivalCountry/Region'',
                              ''NumberOfRoutes''],
                  rows = [[Str ''US'', Str ''US'', Num 2]]\<rparr>)"
    unfolding C5_country_filter_on_both_endpoints [OF wf g i j ks, of "''US''"] kept Let_def
    by (simp add: route_keys_def group_keys_def key_of_def)
  from wf i j ks kept res show ?thesis by blast
qed



text \<open>
  C7. On inputs that meet \<open>getData_ready\<close>, \<^verbatim>\<open>getData\<close> returns. Whenever it returns, its
  dictionary has the key \<^verbatim>\<open>'recovered'\<close> exactly at country granularity. At country
  granularity the keys are \<^verbatim>\<open>'confirmed'\<close>, \<^verbatim>\<open>'deaths'\<close>, \<^verbatim>\<open>'recovered'\<close> and the entry under
  \<^verbatim>\<open>'recovered'\<close> is the aggregation of the stored recovered table. At the other
  granularities the keys are \<^verbatim>\<open>'confirmed'\<close> and \<^verbatim>\<open>'deaths'\<close> and the stored recovered table
  is never read: any table in its place gives the same result, so it cannot cause an
  error.
\<close>

theorem C7_recovered_only_at_country:
  "(getData_ready self g country sd \<longrightarrow>
      (\<exists>data routes. getData self g country sd = Inr (data, routes)))
   \<and> (\<forall>data routes. getData self g country sd = Inr (data, routes) \<longrightarrow>
        (''recovered'' \<in> set (map fst data)) = (g = ''country'')
        \<and> map fst data = (if g = ''country'' then [''confirmed'', ''deaths'', ''recovered'']
                           else [''confirmed'', ''deaths''])
        \<and> (g = ''country'' \<longrightarrow>
             (\<exists>ad nc. select_dates (drop 5 (columns (confirmed_df self))) sd = Inr (ad, nc)
                \<and> dict_get data ''recovered'' =
                    aggregate (selected_cases (recovered_df self) country)
                      [''Country/Region''] ad nc))
        \<and> (g \<noteq> ''country'' \<longrightarrow>
             (\<forall>x. getData (self\<lparr>recovered_df := x\<rparr>) g country sd = Inr (data, routes))))"
proof (intro conjI impI allI)
  assume "getData_ready self g country sd"
  then show "\<exists>data routes. getData self g country sd = Inr (data, routes)"
    by (rule getData_total)
next
  fix data routes
  assume r: "getData self g country sd = Inr (data, routes)"
  show k: "map fst data = (if g = ''country'' then [''confirmed'', ''deaths'', ''recovered'']
                           else [''confirmed'', ''deaths''])"
    by (rule getData_keys [OF r])
  show "(''recovered'' \<in> set (map fst data)) = (g = ''country'')"
    unfolding k by simp
  show "\<exists>ad nc. select_dates (drop 5 (columns (confirmed_df self))) sd = Inr (ad, nc)
                \<and> dict_get data ''recovered'' =
                    aggregate (selected_cases (recovered_df self) country)
                      [''Country/Region''] ad nc"
    if "g = ''country''"
    using getData_recovered_entry [of self country sd data routes] r that by simp
  show "getData (self\<lparr>recovered_df := x\<rparr>) g country sd = Inr (data, routes)"
    if "g \<noteq> ''country''" for x
    using r getData_ignores_recovered [OF that] by simp
qed

theorem C7_recovered_only_at_country_witness:
  "getData_ready example_self ''country'' None (Some ''latest'')
   \<and> getData example_self ''country'' None (Some ''latest'') =
       Inr (example_latest_tables, Some example_country_routes)
   \<and> ''recovered'' \<in> set (map fst example_latest_tables)
   \<and> map fst example_latest_tables = [''confirmed'', ''deaths'', ''recovered'']
   \<and> dict_get example_latest_tables ''recovered'' =
       aggregate (selected_cases (recovered_df example_self) None) [''Country/Region'']
         [(''Lat'', AggMean), (''Long'', AggMean), (''1/23/20'', AggSum)]
         [''Lat'', ''Long'', ''1/23/20'']
   \<and> getData_ready example_self ''state'' None None
   \<and> ''state'' \<noteq> ''country''
   \<and> getData example_self ''state'' None None =
       Inr (example_state_tables, Some example_state_routes)
   \<and> ''recovered'' \<notin> set (map fst example_state_tables)
   \<and> map fst example_state_tables = [''confirmed'', ''deaths'']
   \<and> (\<forall>x. getData (example_self\<lparr>recovered_df := x\<rparr>) ''state'' None None =
           Inr (example_state_tables, Some example_state_routes))"
proof -
  note at_country = C7_recovered_only_at_country [of example_self "''country''" None "Some ''latest''"]
  note at_state = C7_recovered_only_at_country [of example_self "''state''" None None]
  have rc: "getData_ready example_self ''country'' None (Some ''latest'')"
    by code_simp
  have rs: "getData_ready example_self ''state'' None None"
    by code_simp
  have sel: "select_dates (drop 5 (columns (confirmed_df example_self))) (Some ''latest'') =
               Inr ([(''Lat'', AggMean), (''Long'', AggMean), (''1/23/20'', AggSum)],
                    [''Lat'', ''Long'', ''1/23/20''])"
    by code_simp
  from at_country rc obtain data routes where
    "getData example_self ''country'' None (Some ''latest'') = Inr (data, routes)"
    by blast
  then have c0: "getData example_self ''country'' None (Some ''latest'') =
       Inr (example_latest_tables, Some example_country_routes)"
    by (simp add: example_country_latest)
  from at_country c0 have c1: "''recovered'' \<in> set (map fst example_latest_tables)"
    and c2: "map fst example_latest_tables = [''confirmed'', ''deaths'', ''recovered'']"
    and c3: "\<exists>ad nc. select_dates (drop 5 (columns (confirmed_df example_self))) (Some ''latest'')
                 = Inr (ad, nc)
                \<and> dict_get example_latest_tables ''recovered'' =
                    aggregate (selected_cases (recovered_df example_self) None)
                      [''Country/Region''] ad nc"
    by simp_all
  from c3 have c4: "dict_get example_latest_tables ''recovered'' =
       aggregate (selected_cases (recovered_df example_self) None) [''Country/Region'']
         [(''Lat'', AggMean), (''Long'', AggMean), (''1/23/20'', AggSum)]
         [''Lat'', ''Long'', ''1/23/20'']"
    unfolding sel by simp
  from at_state rs obtain data' routes' where
    "getData example_self ''state'' None None = Inr (data', routes')"
    by blast
  then have s0: "getData example_self ''state'' None None =
       Inr (example_state_tables, Some example_state_routes)"
    by (simp add: example_state)
  have g: "''state'' \<noteq> ''country''" by simp
  from at_state s0 g have s1: "''recovered'' \<notin> set (map fst example_state_tables)"
    and s2: "map fst example_state_tables = [''confirmed'', ''deaths'']"
    and s3: "\<forall>x. getData (example_self\<lparr>recovered_df := x\<rparr>) ''state'' None None =
           Inr (example_state_tables, Some example_state_routes)"
    by simp_all
  from rc c0 c1 c2 c4 rs g s0 s1 s2 s3 show ?thesis by blast
qed





text \<open>
  C10. No sequence of calls of \<^verbatim>\<open>getData\<close> and \<^verbatim>\<open>routesToWeightedEdges\<close>, returning or
  raising, changes an object that was in the store before it: the store only grows. In
  particular the four tables the instance refers to are after the calls what they were
  before. The two statements that change an object in place reach only objects the same
  call has allocated.
\<close>

theorem C10_stored_tables_unchanged:
  assumes "list_all (\<lambda>r. r < length s)
             [confirmed_ref self, deaths_ref self, recovered_ref self, routes_ref self]"
  shows "stored_tables self (run_calls self calls s) = stored_tables self s
         \<and> take (length s) (run_calls self calls s) = s"
proof -
  let ?s' = "run_calls self calls s"
  have t: "take (length s) ?s' = s" using run_calls_frame [of s self calls] by simp
  have "?s' ! r = s ! r" if "r < length s" for r
    using that nth_take [of r "length s" ?s'] t by simp
  with assms t show ?thesis by (simp add: stored_tables_def)
qed

theorem C10_stored_tables_unchanged_witness:
  "list_all (\<lambda>r. r < length example_store)
     [confirmed_ref example_refs, deaths_ref example_refs, recovered_ref example_refs,
      routes_ref example_refs]
   \<and> length (run_calls example_refs example_calls example_store) = 25
   \<and> stored_tables example_refs (run_calls example_refs example_calls example_store)
       = stored_tables example_refs example_store
   \<and> take (length example_store) (run_calls example_refs example_calls example_store)
       = example_store"
proof -
  have h: "list_all (\<lambda>r. r < length example_store)
     [confirmed_ref example_refs, deaths_ref example_refs, recovered_ref example_refs,
      routes_ref example_refs]"
    by (simp add: example_store_def example_refs_def)
  from C10_stored_tables_unchanged [OF h, of example_calls] h example_run_length
  show ?thesis by blast
qed

end
